theory Spec2Isabelle
  imports Main
begin

section \<open>Pawsitive Care: the appointment subsystem\<close>

text \<open>
  A shallow embedding of the appointment subsystem of the clinic application: the user
  model with its roles, the appointment builder, the two slot-availability computations,
  the repository, the action strategies with the service that dispatches them, the booking
  view and the notification observers.

  Conventions of the embedding.
  \<^item> Python's \<^verbatim>\<open>datetime\<close> is the number of microseconds since 0001-01-01 00:00:00, a
    \<^verbatim>\<open>timedelta\<close> a number of microseconds, a \<^verbatim>\<open>date\<close> the number of days since
    0001-01-01. Datetimes are naive. Adding a timedelta to a datetime raises
    \<^verbatim>\<open>OverflowError\<close> outside the years 1 to 9999, as Python does.
  \<^item> The relational store is a record of tables; a table is the list of its rows in
    insertion order. A foreign key is represented by the related object itself: no
    modelled operation changes a pet, a user, a service type or a clinic branch.
  \<^item> A model instance in memory (\<open>appointment\<close>) has optional fields, as the builder
    can leave them \<^verbatim>\<open>None\<close>; a stored row (\<open>appointment_row\<close>) has none, since every
    column of the model is declared non-null. The timestamps \<^verbatim>\<open>created_at\<close> and
    \<^verbatim>\<open>updated_at\<close> are left out.
  \<^item> Arguments have the types that the models declare (a pet is a pet, a veterinarian
    a user, a service type a service type), except where the code itself passes a value
    of another class: the new veterinarian of a referral, which the view passes as a
    \<^verbatim>\<open>Veterinarian\<close> profile, and the values that the director gives the builder, a
    service name where a service type is expected. There the argument has a sum type,
    and assigning it to the foreign key raises \<^verbatim>\<open>ValueError\<close>, as the framework does
    for a value that is not an instance of the related model.
  \<^item> An exception is a value \<open>Inl e\<close>; a function with effects returns its result
    together with the new store, also when it raises, since writes made before the
    exception stay. Sending a mail appends it to the \<open>outbox\<close> and does not fail.
\<close>

subsection \<open>Errors\<close>

datatype error =
    ValueError
  | AttributeError
  | OverflowError
  | IntegrityError
  | DatabaseError
  | Http404
  | NoReverseMatch
  | KeyError
  | ImportError

subsection \<open>accounts/models.py: CustomUser\<close>

record user =
  user_id :: nat
  username :: string
  email :: string
  full_name :: string
  role :: string

definition ROLE_CHOICES :: "(string \<times> string) list" where
  "ROLE_CHOICES =
     [(''admin'', ''Admin''),
      (''vet'', ''Veterinarian''),
      (''staff'', ''Staff''),
      (''client'', ''Client'')]"

text \<open>The default of the \<^verbatim>\<open>role\<close> field.\<close>

definition role_default :: string where
  "role_default = ''client''"

definition is_admin :: "user \<Rightarrow> bool" where
  "is_admin u = (role u = ''admin'')"

definition is_vet :: "user \<Rightarrow> bool" where
  "is_vet u = (role u = ''vet'')"

definition is_staff_member :: "user \<Rightarrow> bool" where
  "is_staff_member u = (role u = ''staff'')"

definition is_client :: "user \<Rightarrow> bool" where
  "is_client u = (role u = ''client'')"

text \<open>
  accounts/forms.py: the two forms that create accounts assign the role themselves
  (\<^verbatim>\<open>CustomUserCreationForm.save\<close> and the second \<^verbatim>\<open>VeterinarianForm.save\<close>).
\<close>

definition CustomUserCreationForm_save :: "user \<Rightarrow> user" where
  "CustomUserCreationForm_save u = u\<lparr>role := ''client''\<rparr>"

definition VeterinarianForm_save :: "user \<Rightarrow> user" where
  "VeterinarianForm_save u = u\<lparr>role := ''vet''\<rparr>"

subsection \<open>Related models\<close>

record pet =
  pet_id :: nat
  pet_name :: string
  owner :: user

record service_type =
  st_id :: nat
  st_name :: string

record clinic_branch =
  cb_id :: nat
  cb_name :: string
  is_active :: bool

subsection \<open>accounts/models.py: Veterinarian\<close>

text \<open>The profile of a veterinarian: a model of its own, with a one-to-one link to the
  user. An appointment refers to the user, not to the profile.\<close>

record veterinarian_profile =
  vp_id :: nat
  vp_user :: user
  vp_clinic_branch :: "clinic_branch option"
  vp_can_handle_emergencies :: bool

subsection \<open>Values assigned to a foreign key\<close>

text \<open>What the code passes as the veterinarian of an appointment: a user, or the profile
  of a veterinarian (\<^verbatim>\<open>refer_appointment\<close> of views/vet\_views.py looks the new
  veterinarian up with \<^verbatim>\<open>get_object_or_404(Veterinarian, id=new_vet_id)\<close>).\<close>

datatype veterinarian_arg =
    User_instance user
  | Veterinarian_instance veterinarian_profile


text \<open>The assignment \<^verbatim>\<open>appointment.veterinarian = value\<close> and its like for the service
  type: the descriptor of a foreign key raises \<^verbatim>\<open>ValueError\<close> when the value is
  neither \<^verbatim>\<open>None\<close> nor an instance of the related model.\<close>

definition assign_veterinarian :: "veterinarian_arg \<Rightarrow> error + user" where
  "assign_veterinarian v =
     (case v of
        User_instance u \<Rightarrow> Inr u
      | Veterinarian_instance _ \<Rightarrow> Inl ValueError)"


subsection \<open>Dates and times\<close>

type_synonym datetime = int
type_synonym timedelta = int
type_synonym date = int

definition MINUTE :: timedelta where
  "MINUTE = 60000000"

definition HOUR :: timedelta where
  "HOUR = 3600000000"

definition DAY :: timedelta where
  "DAY = 86400000000"

text \<open>\<^verbatim>\<open>date.max\<close> is 9999-12-31, day number 3652058 counted from 0.\<close>

definition date_max :: date where
  "date_max = 3652058"

text \<open>\<^verbatim>\<open>datetime.max\<close> is 9999-12-31 23:59:59.999999.\<close>

definition datetime_max :: datetime where
  "datetime_max = (date_max + 1) * DAY - 1"

text \<open>\<^verbatim>\<open>datetime + timedelta\<close>.\<close>

definition dt_add :: "datetime \<Rightarrow> timedelta \<Rightarrow> error + datetime" where
  "dt_add t d = (if 0 \<le> t + d \<and> t + d \<le> datetime_max then Inr (t + d) else Inl OverflowError)"

text \<open>\<^verbatim>\<open>datetime.combine(date, datetime.min.time().replace(hour=h))\<close>.\<close>

definition combine_hour :: "date \<Rightarrow> int \<Rightarrow> datetime" where
  "combine_hour d h = d * DAY + h * HOUR"

text \<open>The date of a datetime, as the lookup \<^verbatim>\<open>date_time__date\<close> takes it.\<close>

definition date_of :: "datetime \<Rightarrow> date" where
  "date_of t = t div DAY"

text \<open>\<^verbatim>\<open>dt.replace(hour=h, minute=0, second=0, microsecond=0)\<close>.\<close>

definition replace_hour :: "datetime \<Rightarrow> int \<Rightarrow> datetime" where
  "replace_hour t h = date_of t * DAY + h * HOUR"

subsection \<open>appoinments/models.py: Appointment\<close>

text \<open>An instance in memory. \<open>pk\<close> is \<^verbatim>\<open>None\<close> until the instance is saved. The last
  four fields are not columns of the model: the strategies assign them as plain Python
  attributes of the instance.\<close>

record appointment =
  pk :: "nat option"
  pet :: "pet option"
  service_type :: "service_type option"
  veterinarian :: "user option"
  date_time :: "datetime option"
  clinic_branch :: "clinic_branch option"
  appt_notes :: string
  status :: string
  treatment_notes :: "string option"
  diagnosis :: "string option"
  follow_up_date :: "datetime option"
  cancellation_reason :: "string option"

text \<open>A stored row.\<close>

record appointment_row =
  row_id :: nat
  row_pet :: pet
  row_service_type :: service_type
  row_veterinarian :: user
  row_date_time :: datetime
  row_clinic_branch :: clinic_branch
  row_notes :: string
  row_status :: string

subsection \<open>patterns/builder.py: AppointmentBuilder\<close>

text \<open>The dictionary \<^verbatim>\<open>self._appointment\<close>.\<close>

record builder =
  b_pet :: "pet option"
  b_service_type :: "service_type option"
  b_veterinarian :: "user option"
  b_date_time :: "datetime option"
  b_clinic_branch :: "clinic_branch option"
  b_notes :: string
  b_status :: string

definition reset :: builder where
  "reset = \<lparr>b_pet = None, b_service_type = None, b_veterinarian = None, b_date_time = None,
            b_clinic_branch = None, b_notes = '''', b_status = ''pending''\<rparr>"

definition set_pet :: "pet option \<Rightarrow> builder \<Rightarrow> builder" where
  "set_pet p b = b\<lparr>b_pet := p\<rparr>"

definition set_service :: "service_type option \<Rightarrow> builder \<Rightarrow> builder" where
  "set_service s b = b\<lparr>b_service_type := s\<rparr>"

definition set_veterinarian :: "user option \<Rightarrow> builder \<Rightarrow> builder" where
  "set_veterinarian v b = b\<lparr>b_veterinarian := v\<rparr>"

definition set_datetime :: "datetime option \<Rightarrow> builder \<Rightarrow> builder" where
  "set_datetime t b = b\<lparr>b_date_time := t\<rparr>"

definition set_clinic_branch :: "clinic_branch option \<Rightarrow> builder \<Rightarrow> builder" where
  "set_clinic_branch c b = b\<lparr>b_clinic_branch := c\<rparr>"

definition set_notes :: "string \<Rightarrow> builder \<Rightarrow> builder" where
  "set_notes n b = b\<lparr>b_notes := n\<rparr>"

definition set_status :: "string \<Rightarrow> builder \<Rightarrow> builder" where
  "set_status st b = b\<lparr>b_status := st\<rparr>"

text \<open>The constructor call \<^verbatim>\<open>Appointment(pet=..., ..., status=...)\<close>.\<close>

definition Appointment ::
  "pet option \<Rightarrow> service_type option \<Rightarrow> user option \<Rightarrow> datetime option \<Rightarrow>
   clinic_branch option \<Rightarrow> string \<Rightarrow> string \<Rightarrow> appointment" where
  "Appointment p s v t c n st =
     \<lparr>pk = None, pet = p, service_type = s, veterinarian = v, date_time = t,
      clinic_branch = c, appt_notes = n, status = st, treatment_notes = None, diagnosis = None,
      follow_up_date = None, cancellation_reason = None\<rparr>"

text \<open>\<^verbatim>\<open>build\<close> returns the instance and leaves the builder reset.\<close>

definition build :: "builder \<Rightarrow> appointment \<times> builder" where
  "build b =
     (Appointment (b_pet b) (b_service_type b) (b_veterinarian b) (b_date_time b)
        (b_clinic_branch b) (b_notes b) (b_status b),
      reset)"




subsection \<open>patterns/repository.py: AppointmentRepository.get_available_slots\<close>

text \<open>The inner \<^verbatim>\<open>for\<close> loop over the existing appointments: \<open>Inr True\<close> when the loop
  ends without \<^verbatim>\<open>break\<close>. The second operand of \<^verbatim>\<open>and\<close> is evaluated only when the
  first one holds.\<close>

fun is_available :: "appointment_row list \<Rightarrow> timedelta \<Rightarrow> datetime \<Rightarrow> error + bool" where
  "is_available [] duration current_slot = Inr True"
| "is_available (appt # appts) duration current_slot =
     (case dt_add (row_date_time appt) duration of
        Inl e \<Rightarrow> Inl e
      | Inr appt_end \<Rightarrow>
          (if current_slot < appt_end then
             (case dt_add current_slot duration of
                Inl e \<Rightarrow> Inl e
              | Inr slot_end \<Rightarrow>
                  if slot_end > row_date_time appt then Inr False
                  else is_available appts duration current_slot)
           else is_available appts duration current_slot))"

text \<open>The \<^verbatim>\<open>while\<close> loop. It need not terminate: the value \<open>None\<close> stands for a loop
  that runs forever.\<close>

partial_function (option) slots_loop ::
  "appointment_row list \<Rightarrow> timedelta \<Rightarrow> datetime \<Rightarrow> datetime \<Rightarrow> datetime list \<Rightarrow>
   (error + datetime list) option" where
  "slots_loop existing duration end_time current_slot slots =
     (case dt_add current_slot duration of
        Inl e \<Rightarrow> Some (Inl e)
      | Inr slot_end \<Rightarrow>
          if slot_end \<le> end_time then
            (case is_available existing duration current_slot of
               Inl e \<Rightarrow> Some (Inl e)
             | Inr ok \<Rightarrow>
                 slots_loop existing duration end_time slot_end
                   (if ok then slots @ [current_slot] else slots))
          else Some (Inr slots))"

declare slots_loop.simps [code]

text \<open>The default of the parameter \<^verbatim>\<open>duration\<close>.\<close>

definition default_duration :: timedelta where
  "default_duration = 30 * MINUTE"

text \<open>\<open>table\<close> is the appointment table; the query filters it and orders the rows by
  \<^verbatim>\<open>date_time\<close>.\<close>

definition get_available_slots ::
  "appointment_row list \<Rightarrow> user \<Rightarrow> date \<Rightarrow> timedelta \<Rightarrow> (error + datetime list) option" where
  "get_available_slots table vet date duration =
     (let existing_appointments =
            sort_key row_date_time
              (filter (\<lambda>a. user_id (row_veterinarian a) = user_id vet
                           \<and> date_of (row_date_time a) = date
                           \<and> row_status a = ''confirmed'') table);
          start_time = combine_hour date 9;
          end_time = combine_hour date 17
      in slots_loop existing_appointments duration end_time start_time [])"

subsection \<open>patterns/vet_patterns/repository.py: DjangoAppointmentRepository.get_available_slots\<close>

definition slot_duration :: timedelta where
  "slot_duration = 30 * MINUTE"

text \<open>The \<^verbatim>\<open>while\<close> loop. The sum \<^verbatim>\<open>current_slot + slot_duration\<close> is taken only when
  \<^verbatim>\<open>current_slot\<close> is before 18:00 of the day, so it never leaves the range of
  datetimes.\<close>

function slots_loop_django ::
  "datetime list \<Rightarrow> datetime \<Rightarrow> datetime \<Rightarrow> datetime list \<Rightarrow> datetime list" where
  "slots_loop_django existing_appointments day_end current_slot available_slots =
     (if current_slot < day_end then
        slots_loop_django existing_appointments day_end (current_slot + slot_duration)
          (if current_slot \<notin> set existing_appointments
           then available_slots @ [current_slot] else available_slots)
      else available_slots)"
  by pat_completeness auto
termination
  by (relation "measure (\<lambda>(ex, day_end, cur, acc). nat (day_end - cur))")
    (auto simp: slot_duration_def MINUTE_def)

declare slots_loop_django.simps [simp del]

text \<open>\<open>date\<close> is a datetime, as the signature says. The lookup \<^verbatim>\<open>date_time__range\<close>
  includes both ends.\<close>

definition DjangoAppointmentRepository_get_available_slots ::
  "appointment_row list \<Rightarrow> nat \<Rightarrow> datetime \<Rightarrow> datetime list" where
  "DjangoAppointmentRepository_get_available_slots table vet_id date =
     (let start_hour = 8;
          end_hour = 18;
          day_start = replace_hour date start_hour;
          day_end = replace_hour date end_hour;
          existing_appointments =
            map row_date_time
              (filter (\<lambda>a. user_id (row_veterinarian a) = vet_id
                           \<and> day_start \<le> row_date_time a \<and> row_date_time a \<le> day_end) table)
      in slots_loop_django existing_appointments day_end day_start [])"

subsection \<open>The store\<close>

text \<open>A mail that \<^verbatim>\<open>send_mail\<close> has sent: which of the messages of the code it is, and
  its recipient list. Subject and body are left out.\<close>

datatype template =
    StatusUpdate
  | Reminder
  | Rescheduled
  | Cancelled
  | NoShow
  | Referral
  | VetUpdate

record mail =
  mail_template :: template
  mail_to :: "string list"

text \<open>A row of \<^verbatim>\<open>AppointmentNotification\<close>; the message text is left out.\<close>

record notification_row =
  n_appointment :: nat
  n_type :: string
  n_is_sent :: bool

datatype vet_observer =
    VetScheduleObserver
  | EmergencyAlertObserver
  | AppointmentReminderObserver

text \<open>The tables, the mails sent so far, and the observer list of the singleton
  \<^verbatim>\<open>AppointmentComponentFactory\<close>. \<open>next_id\<close> is the next value of the primary-key
  sequence of the appointment table.\<close>

record store =
  appointments :: "appointment_row list"
  next_id :: nat
  notifications :: "notification_row list"
  outbox :: "mail list"
  pets :: "pet list"
  service_types :: "service_type list"
  users :: "user list"
  clinic_branches :: "clinic_branch list"
  factory_observers :: "vet_observer list"

definition send_mail :: "template \<Rightarrow> string list \<Rightarrow> store \<Rightarrow> store" where
  "send_mail k recipient_list s =
     s\<lparr>outbox := outbox s @ [\<lparr>mail_template = k, mail_to = recipient_list\<rparr>]\<rparr>"

subsection \<open>The object-relational mapping of Appointment\<close>

text \<open>The row that a write stores for an instance: a \<^verbatim>\<open>None\<close> in a column violates its
  NOT NULL constraint.\<close>

definition to_row :: "nat \<Rightarrow> appointment \<Rightarrow> error + appointment_row" where
  "to_row i a =
     (case (pet a, service_type a, veterinarian a, date_time a, clinic_branch a) of
        (Some p, Some sv, Some v, Some t, Some c) \<Rightarrow>
          Inr \<lparr>row_id = i, row_pet = p, row_service_type = sv, row_veterinarian = v,
               row_date_time = t, row_clinic_branch = c, row_notes = appt_notes a,
               row_status = status a\<rparr>
      | _ \<Rightarrow> Inl IntegrityError)"

text \<open>The instance that a query builds from a row.\<close>

definition from_row :: "appointment_row \<Rightarrow> appointment" where
  "from_row r =
     \<lparr>pk = Some (row_id r), pet = Some (row_pet r), service_type = Some (row_service_type r),
      veterinarian = Some (row_veterinarian r), date_time = Some (row_date_time r),
      clinic_branch = Some (row_clinic_branch r), appt_notes = row_notes r,
      status = row_status r, treatment_notes = None, diagnosis = None,
      follow_up_date = None, cancellation_reason = None\<rparr>"

text \<open>\<^verbatim>\<open>Appointment.objects.get(id=i)\<close>; \<open>None\<close> stands for \<^verbatim>\<open>DoesNotExist\<close>.\<close>

definition objects_get :: "nat \<Rightarrow> store \<Rightarrow> appointment_row option" where
  "objects_get i s = find (\<lambda>r. row_id r = i) (appointments s)"

text \<open>\<^verbatim>\<open>appointment.save()\<close>: an insert with a fresh key when the instance has no
  primary key, else an update of the row with that key, or an insert when there is no
  such row. The \<^verbatim>\<open>post_save\<close> receiver of vet\_patterns/observer.py notifies the
  observers of the \<^verbatim>\<open>AppointmentSubject\<close> of that module; no code attaches an
  observer to it, so the receiver does nothing and is left out.\<close>

definition save :: "appointment \<Rightarrow> store \<Rightarrow> (error + appointment) \<times> store" where
  "save a s =
     (case pk a of
        None \<Rightarrow>
          (case to_row (next_id s) a of
             Inl e \<Rightarrow> (Inl e, s)
           | Inr r \<Rightarrow>
               (Inr (a\<lparr>pk := Some (next_id s)\<rparr>),
                s\<lparr>appointments := appointments s @ [r], next_id := Suc (next_id s)\<rparr>))
      | Some i \<Rightarrow>
          (case to_row i a of
             Inl e \<Rightarrow> (Inl e, s)
           | Inr r \<Rightarrow>
               if \<exists>x\<in>set (appointments s). row_id x = i
               then (Inr a,
                     s\<lparr>appointments := map (\<lambda>x. if row_id x = i then r else x) (appointments s)\<rparr>)
               else (Inr a, s\<lparr>appointments := appointments s @ [r]\<rparr>)))"

text \<open>\<^verbatim>\<open>appointment.save(update_fields=['date_time'])\<close> and
  \<^verbatim>\<open>appointment.save(update_fields=['status'])\<close>: an update of the one column.\<close>

definition save_date_time :: "appointment \<Rightarrow> store \<Rightarrow> (error + unit) \<times> store" where
  "save_date_time a s =
     (case pk a of
        None \<Rightarrow> (Inl ValueError, s)
      | Some i \<Rightarrow>
          (case date_time a of
             None \<Rightarrow> (Inl IntegrityError, s)
           | Some t \<Rightarrow>
               if \<exists>x\<in>set (appointments s). row_id x = i
               then (Inr (),
                     s\<lparr>appointments :=
                         map (\<lambda>x. if row_id x = i then x\<lparr>row_date_time := t\<rparr> else x)
                           (appointments s)\<rparr>)
               else (Inl DatabaseError, s)))"

definition save_status :: "appointment \<Rightarrow> store \<Rightarrow> (error + unit) \<times> store" where
  "save_status a s =
     (case pk a of
        None \<Rightarrow> (Inl ValueError, s)
      | Some i \<Rightarrow>
          if \<exists>x\<in>set (appointments s). row_id x = i
          then (Inr (),
                s\<lparr>appointments :=
                    map (\<lambda>x. if row_id x = i then x\<lparr>row_status := status a\<rparr> else x)
                      (appointments s)\<rparr>)
          else (Inl DatabaseError, s))"

text \<open>\<^verbatim>\<open>appointment.delete()\<close>: the notifications of the appointment go with it
  (\<^verbatim>\<open>on_delete=CASCADE\<close>), as its feedback does, whose table is not part of the
  store.\<close>

definition delete_row :: "nat \<Rightarrow> store \<Rightarrow> store" where
  "delete_row i s =
     s\<lparr>appointments := filter (\<lambda>x. row_id x \<noteq> i) (appointments s),
       notifications := filter (\<lambda>n. n_appointment n \<noteq> i) (notifications s)\<rparr>"

subsection \<open>patterns/vet_patterns/repository.py: DjangoAppointmentRepository\<close>

definition get_by_id :: "nat \<Rightarrow> store \<Rightarrow> appointment option" where
  "get_by_id appointment_id s =
     (case objects_get appointment_id s of
        Some r \<Rightarrow> Some (from_row r)
      | None \<Rightarrow> None)"

definition repository_save :: "appointment \<Rightarrow> store \<Rightarrow> (error + appointment) \<times> store" where
  "repository_save appointment s = save appointment s"

definition delete :: "nat \<Rightarrow> store \<Rightarrow> bool \<times> store" where
  "delete appointment_id s =
     (case objects_get appointment_id s of
        Some r \<Rightarrow> (True, delete_row (row_id r) s)
      | None \<Rightarrow> (False, s))"

definition update_status :: "nat \<Rightarrow> string \<Rightarrow> store \<Rightarrow> (error + bool) \<times> store" where
  "update_status appointment_id new_status s =
     (case objects_get appointment_id s of
        Some r \<Rightarrow>
          (case save_status ((from_row r)\<lparr>status := new_status\<rparr>) s of
             (Inl e, s') \<Rightarrow> (Inl e, s')
           | (Inr _, s') \<Rightarrow> (Inr True, s'))
      | None \<Rightarrow> (Inr False, s))"

subsection \<open>patterns/vet_patterns/strategy.py: the action strategies\<close>

text \<open>The keyword arguments that the strategies read; \<open>None\<close> stands for a keyword that
  is not passed.\<close>

record kwargs =
  kw_treatment_notes :: "string option"
  kw_diagnosis :: "string option"
  kw_follow_up_date :: "datetime option"
  kw_new_datetime :: "datetime option"
  kw_reason :: "string option"
  kw_notify_client :: "bool option"
  kw_notes :: "string option"
  kw_new_vet :: "veterinarian_arg option"

text \<open>\<^verbatim>\<open>kwargs.get(key, default)\<close>.\<close>

definition get_default :: "'a option \<Rightarrow> 'a \<Rightarrow> 'a" where
  "get_default v dflt = (case v of None \<Rightarrow> dflt | Some x \<Rightarrow> x)"

text \<open>Attribute lookup on \<^verbatim>\<open>AppointmentBuilder\<close> for a method that takes the service
  type: the class defines \<^verbatim>\<open>set_service\<close> and no other; \<open>None\<close> stands for
  \<^verbatim>\<open>AttributeError\<close>.\<close>

definition AppointmentBuilder_service_method ::
  "string \<Rightarrow> (service_type option \<Rightarrow> builder \<Rightarrow> builder) option" where
  "AppointmentBuilder_service_method name =
     (if name = ''set_service'' then Some set_service else None)"

text \<open>\<^verbatim>\<open>CompleteAppointmentStrategy._schedule_follow_up\<close>: the chain of calls on a new
  builder, evaluated from left to right; its third call is \<^verbatim>\<open>set_service_type\<close>.\<close>

definition schedule_follow_up ::
  "appointment \<Rightarrow> datetime \<Rightarrow> store \<Rightarrow> (error + appointment) \<times> store" where
  "schedule_follow_up original_appointment follow_up s =
     (let b = set_veterinarian (veterinarian original_appointment)
                (set_pet (pet original_appointment) reset)
      in case AppointmentBuilder_service_method ''set_service_type'' of
           None \<Rightarrow> (Inl AttributeError, s)
         | Some set_service_type \<Rightarrow>
             (let b = set_status ''pending''
                        (set_notes ''Follow-up appointment''
                          (set_datetime (Some follow_up)
                            (set_clinic_branch (clinic_branch original_appointment)
                              (set_service_type (service_type original_appointment) b))));
                  follow_up_appointment = fst (build b)
              in save follow_up_appointment s))"

definition CompleteAppointmentStrategy_execute ::
  "appointment \<Rightarrow> kwargs \<Rightarrow> store \<Rightarrow> (error + appointment) \<times> store" where
  "CompleteAppointmentStrategy_execute appointment kw s =
     (let a = appointment
                \<lparr>status := ''completed'',
                 treatment_notes := Some (get_default (kw_treatment_notes kw) ''''),
                 diagnosis := Some (get_default (kw_diagnosis kw) ''''),
                 follow_up_date := kw_follow_up_date kw\<rparr>
      in case save a s of
           (Inl e, s1) \<Rightarrow> (Inl e, s1)
         | (Inr a1, s1) \<Rightarrow>
             (case kw_follow_up_date kw of
                None \<Rightarrow> (Inr a1, s1)
              | Some follow_up \<Rightarrow>
                  (case schedule_follow_up a1 follow_up s1 of
                     (Inl e, s2) \<Rightarrow> (Inl e, s2)
                   | (Inr _, s2) \<Rightarrow> (Inr a1, s2))))"

text \<open>The notification methods format the message first, reading \<^verbatim>\<open>strftime\<close> of the
  date, the pet and the veterinarian, which raises \<^verbatim>\<open>AttributeError\<close> on \<^verbatim>\<open>None\<close>,
  and then send the mail.\<close>

definition notify_rescheduled ::
  "appointment \<Rightarrow> datetime option \<Rightarrow> store \<Rightarrow> (error + unit) \<times> store" where
  "notify_rescheduled appointment old_datetime s =
     (case (old_datetime, pet appointment, veterinarian appointment) of
        (Some _, Some p, Some _) \<Rightarrow> (Inr (), send_mail Rescheduled [email (owner p)] s)
      | _ \<Rightarrow> (Inl AttributeError, s))"

definition RescheduleStrategy_execute ::
  "appointment \<Rightarrow> kwargs \<Rightarrow> store \<Rightarrow> (error + appointment) \<times> store" where
  "RescheduleStrategy_execute appointment kw s =
     (case kw_new_datetime kw of
        None \<Rightarrow> (Inl ValueError, s)
      | Some new_datetime \<Rightarrow>
          (let old_datetime = date_time appointment;
               a = appointment\<lparr>date_time := Some new_datetime\<rparr>
           in case save_date_time a s of
                (Inl e, s1) \<Rightarrow> (Inl e, s1)
              | (Inr _, s1) \<Rightarrow>
                  (case notify_rescheduled a old_datetime s1 of
                     (Inl e, s2) \<Rightarrow> (Inl e, s2)
                   | (Inr _, s2) \<Rightarrow> (Inr a, s2))))"

definition notify_cancellation :: "appointment \<Rightarrow> store \<Rightarrow> (error + unit) \<times> store" where
  "notify_cancellation appointment s =
     (case (date_time appointment, pet appointment, veterinarian appointment) of
        (Some _, Some p, Some _) \<Rightarrow> (Inr (), send_mail Cancelled [email (owner p)] s)
      | _ \<Rightarrow> (Inl AttributeError, s))"

definition CancellationStrategy_execute ::
  "appointment \<Rightarrow> kwargs \<Rightarrow> store \<Rightarrow> (error + appointment) \<times> store" where
  "CancellationStrategy_execute appointment kw s =
     (let a = appointment
                \<lparr>status := ''cancelled'',
                 cancellation_reason := Some (get_default (kw_reason kw) '''')\<rparr>
      in case save a s of
           (Inl e, s1) \<Rightarrow> (Inl e, s1)
         | (Inr a1, s1) \<Rightarrow>
             if get_default (kw_notify_client kw) True then
               (case notify_cancellation a1 s1 of
                  (Inl e, s2) \<Rightarrow> (Inl e, s2)
                | (Inr _, s2) \<Rightarrow> (Inr a1, s2))
             else (Inr a1, s1))"

definition notify_no_show :: "appointment \<Rightarrow> store \<Rightarrow> (error + unit) \<times> store" where
  "notify_no_show appointment s =
     (case (date_time appointment, pet appointment, veterinarian appointment) of
        (Some _, Some p, Some _) \<Rightarrow> (Inr (), send_mail NoShow [email (owner p)] s)
      | _ \<Rightarrow> (Inl AttributeError, s))"

definition NoShowStrategy_execute ::
  "appointment \<Rightarrow> kwargs \<Rightarrow> store \<Rightarrow> (error + appointment) \<times> store" where
  "NoShowStrategy_execute appointment kw s =
     (let a = appointment
                \<lparr>status := ''no_show'',
                 appt_notes := ''No-show: '' @ get_default (kw_notes kw) ''''\<rparr>
      in case save a s of
           (Inl e, s1) \<Rightarrow> (Inl e, s1)
         | (Inr a1, s1) \<Rightarrow>
             (case notify_no_show a1 s1 of
                (Inl e, s2) \<Rightarrow> (Inl e, s2)
              | (Inr _, s2) \<Rightarrow> (Inr a1, s2)))"

definition notify_referral :: "appointment \<Rightarrow> user \<Rightarrow> store \<Rightarrow> (error + unit) \<times> store" where
  "notify_referral appointment new_vet s =
     (case (pet appointment, date_time appointment) of
        (Some _, Some _) \<Rightarrow> (Inr (), send_mail Referral [email new_vet] s)
      | _ \<Rightarrow> (Inl AttributeError, s))"

definition ReferralStrategy_execute ::
  "appointment \<Rightarrow> kwargs \<Rightarrow> store \<Rightarrow> (error + appointment) \<times> store" where
  "ReferralStrategy_execute appointment kw s =
     (case kw_new_vet kw of
        None \<Rightarrow> (Inl ValueError, s)
      | Some new_vet \<Rightarrow>
          (case veterinarian appointment of
             None \<Rightarrow> (Inl AttributeError, s)
           | Some old_vet \<Rightarrow>
               (case assign_veterinarian new_vet of
                  Inl e \<Rightarrow> (Inl e, s)
                | Inr new_user \<Rightarrow>
                    (let a = appointment
                               \<lparr>veterinarian := Some new_user,
                                appt_notes := ''Referred by Dr. '' @ full_name old_vet @ '': ''
                                                @ get_default (kw_notes kw) ''''\<rparr>
                     in case save a s of
                          (Inl e, s1) \<Rightarrow> (Inl e, s1)
                        | (Inr a1, s1) \<Rightarrow>
                            (case notify_referral a1 new_user s1 of
                               (Inl e, s2) \<Rightarrow> (Inl e, s2)
                             | (Inr _, s2) \<Rightarrow> (Inr a1, s2))))))"

subsection \<open>patterns/vet_patterns/observer.py: the observers of the factory\<close>

fun starts_with :: "string \<Rightarrow> string \<Rightarrow> bool" where
  "starts_with [] hay = True"
| "starts_with (c # cs) [] = False"
| "starts_with (c # cs) (d # ds) = (c = d \<and> starts_with cs ds)"

text \<open>\<^verbatim>\<open>needle in text\<close> on two strings.\<close>

fun str_contains :: "string \<Rightarrow> string \<Rightarrow> bool" where
  "str_contains needle [] = (needle = [])"
| "str_contains needle (c # cs) = (starts_with needle (c # cs) \<or> str_contains needle cs)"

definition notify_vet :: "appointment \<Rightarrow> store \<Rightarrow> (error + unit) \<times> store" where
  "notify_vet appointment s =
     (case (pet appointment, date_time appointment, veterinarian appointment) of
        (Some _, Some _, Some v) \<Rightarrow> (Inr (), send_mail VetUpdate [email v] s)
      | _ \<Rightarrow> (Inl AttributeError, s))"

text \<open>\<^verbatim>\<open>update(appointment, changed_fields)\<close>; the factory passes the name of the event
  as \<^verbatim>\<open>changed_fields\<close>. The model \<^verbatim>\<open>Appointment\<close> has no attribute
  \<^verbatim>\<open>is_emergency\<close>, so reading it raises. The reminder observer only calls methods whose
  body is \<^verbatim>\<open>pass\<close>.\<close>

fun vet_observer_update ::
  "vet_observer \<Rightarrow> appointment \<Rightarrow> string \<Rightarrow> store \<Rightarrow> (error + unit) \<times> store" where
  "vet_observer_update VetScheduleObserver appointment changed_fields s =
     (if changed_fields \<noteq> []
         \<and> (str_contains ''date_time'' changed_fields \<or> str_contains ''status'' changed_fields)
      then notify_vet appointment s
      else (Inr (), s))"
| "vet_observer_update EmergencyAlertObserver appointment changed_fields s =
     (Inl AttributeError, s)"
| "vet_observer_update AppointmentReminderObserver appointment changed_fields s =
     (Inr (), s)"

subsection \<open>patterns/vet_patterns/appointment_director.py: AppointmentDirector\<close>






















subsection \<open>patterns/vet_patterns/factory.py: AppointmentComponentFactory and AppointmentService\<close>

datatype strategy =
    CompleteAppointmentStrategy
  | RescheduleStrategy
  | CancellationStrategy
  | NoShowStrategy
  | ReferralStrategy

definition strategies :: "(string \<times> strategy) list" where
  "strategies =
     [(''complete'', CompleteAppointmentStrategy),
      (''reschedule'', RescheduleStrategy),
      (''cancel'', CancellationStrategy),
      (''no_show'', NoShowStrategy),
      (''refer'', ReferralStrategy)]"

definition get_strategy :: "string \<Rightarrow> error + strategy" where
  "get_strategy strategy_type =
     (case map_of strategies strategy_type of
        None \<Rightarrow> Inl ValueError
      | Some strategy_class \<Rightarrow> Inr strategy_class)"

fun execute ::
  "strategy \<Rightarrow> appointment \<Rightarrow> kwargs \<Rightarrow> store \<Rightarrow> (error + appointment) \<times> store" where
  "execute CompleteAppointmentStrategy = CompleteAppointmentStrategy_execute"
| "execute RescheduleStrategy = RescheduleStrategy_execute"
| "execute CancellationStrategy = CancellationStrategy_execute"
| "execute NoShowStrategy = NoShowStrategy_execute"
| "execute ReferralStrategy = ReferralStrategy_execute"

text \<open>\<^verbatim>\<open>notify_observers\<close>: the loop stops at the first observer that raises.\<close>

fun notify_observers ::
  "vet_observer list \<Rightarrow> appointment \<Rightarrow> string \<Rightarrow> store \<Rightarrow> (error + unit) \<times> store" where
  "notify_observers [] appointment event_type s = (Inr (), s)"
| "notify_observers (observer # observers) appointment event_type s =
     (case vet_observer_update observer appointment event_type s of
        (Inl e, s1) \<Rightarrow> (Inl e, s1)
      | (Inr _, s1) \<Rightarrow> notify_observers observers appointment event_type s1)"

definition process_appointment ::
  "nat \<Rightarrow> string \<Rightarrow> kwargs \<Rightarrow> store \<Rightarrow> (error + appointment) \<times> store" where
  "process_appointment appointment_id action kw s =
     (case get_by_id appointment_id s of
        None \<Rightarrow> (Inl ValueError, s)
      | Some appointment \<Rightarrow>
          (case get_strategy action of
             Inl e \<Rightarrow> (Inl e, s)
           | Inr strategy \<Rightarrow>
               (case execute strategy appointment kw s of
                  (Inl e, s1) \<Rightarrow> (Inl e, s1)
                | (Inr a, s1) \<Rightarrow>
                    (case repository_save a s1 of
                       (Inl e, s2) \<Rightarrow> (Inl e, s2)
                     | (Inr saved_appointment, s2) \<Rightarrow>
                         (case notify_observers (factory_observers s2) saved_appointment action s2 of
                            (Inl e, s3) \<Rightarrow> (Inl e, s3)
                          | (Inr _, s3) \<Rightarrow> (Inr saved_appointment, s3))))))"



text \<open>Keyword arguments with no keyword passed, for the two methods of the service.\<close>

definition no_kwargs :: kwargs where
  "no_kwargs =
     \<lparr>kw_treatment_notes = None, kw_diagnosis = None, kw_follow_up_date = None,
      kw_new_datetime = None, kw_reason = None, kw_notify_client = None, kw_notes = None,
      kw_new_vet = None\<rparr>"


text \<open>An instance as a query for the key \<open>i\<close> returns it, also after a strategy has
  assigned some of its fields: every column has a value.\<close>

definition loaded :: "nat \<Rightarrow> appointment \<Rightarrow> bool" where
  "loaded i a \<longleftrightarrow>
     pk a = Some i \<and> pet a \<noteq> None \<and> service_type a \<noteq> None \<and> veterinarian a \<noteq> None
     \<and> date_time a \<noteq> None \<and> clinic_branch a \<noteq> None"

subsection \<open>patterns/observer.py: the observers of the booking views\<close>

datatype observer_class =
    EmailNotificationObserver
  | ReminderObserver

text \<open>An observer object: its identity and its class. Two observers are equal when they
  are the same object.\<close>

type_synonym observer = "nat \<times> observer_class"







subsection \<open>patterns/factory.py: the appointment factories\<close>




subsection \<open>views/appointment_views.py: book_appointment\<close>







subsection \<open>Sample data\<close>

definition vet_ana :: user where
  "vet_ana = \<lparr>user_id = 1, username = ''ana'', email = ''ana@clinic.test'',
     full_name = ''Ana Vet'', role = ''vet''\<rparr>"

definition owner_bo :: user where
  "owner_bo = \<lparr>user_id = 2, username = ''bo'', email = ''bo@home.test'',
     full_name = ''Bo Owner'', role = ''client''\<rparr>"

definition vet_cy :: user where
  "vet_cy = \<lparr>user_id = 3, username = ''cy'', email = ''cy@clinic.test'',
     full_name = ''Cy Vet'', role = ''vet''\<rparr>"

definition pet_rex :: pet where
  "pet_rex = \<lparr>pet_id = 1, pet_name = ''Rex'', owner = owner_bo\<rparr>"

definition checkup :: service_type where
  "checkup = \<lparr>st_id = 1, st_name = ''General Checkup''\<rparr>"

definition main_branch :: clinic_branch where
  "main_branch = \<lparr>cb_id = 1, cb_name = ''Main'', is_active = True\<rparr>"

definition row_at :: "nat \<Rightarrow> datetime \<Rightarrow> string \<Rightarrow> appointment_row" where
  "row_at i t st =
     \<lparr>row_id = i, row_pet = pet_rex, row_service_type = checkup, row_veterinarian = vet_ana,
      row_date_time = t, row_clinic_branch = main_branch, row_notes = '''', row_status = st\<rparr>"

definition profile_cy :: veterinarian_profile where
  "profile_cy = \<lparr>vp_id = 1, vp_user = vet_cy, vp_clinic_branch = Some main_branch,
     vp_can_handle_emergencies = True\<rparr>"

text \<open>A store with two appointments of the same veterinarian.\<close>

definition clinic_store :: store where
  "clinic_store =
     \<lparr>appointments =
        [row_at 1 (combine_hour 738000 10) ''confirmed'',
         row_at 2 (combine_hour 738000 11) ''pending''],
      next_id = 3,
      notifications = [],
      outbox = [],
      pets = [pet_rex],
      service_types = [checkup],
      users = [vet_ana, owner_bo],
      clinic_branches = [main_branch],
      factory_observers = []\<rparr>"

section \<open>User roles\<close>

text \<open>
  C8. The role of a user account is one of exactly \<^verbatim>\<open>admin\<close>, \<^verbatim>\<open>vet\<close>, \<^verbatim>\<open>staff\<close>,
  \<^verbatim>\<open>client\<close> (the declared choices, which also contain the default \<^verbatim>\<open>client\<close> and the
  roles that the account-creating forms assign), and for a user whose role is one of
  the four exactly one of the predicates \<^verbatim>\<open>is_admin\<close>, \<^verbatim>\<open>is_vet\<close>,
  \<^verbatim>\<open>is_staff_member\<close>, \<^verbatim>\<open>is_client\<close> returns true.
\<close>

theorem role_choices_exactly_one_predicate:
  "map fst ROLE_CHOICES = [''admin'', ''vet'', ''staff'', ''client'']
   \<and> distinct (map fst ROLE_CHOICES)
   \<and> role_default = ''client''
   \<and> role_default \<in> set (map fst ROLE_CHOICES)
   \<and> role (CustomUserCreationForm_save u0) \<in> set (map fst ROLE_CHOICES)
   \<and> role (VeterinarianForm_save u0) \<in> set (map fst ROLE_CHOICES)
   \<and> (role u \<in> set (map fst ROLE_CHOICES) \<longrightarrow>
        length (filter (\<lambda>p. p u) [is_admin, is_vet, is_staff_member, is_client]) = 1)"
  by (auto simp: ROLE_CHOICES_def role_default_def is_admin_def is_vet_def
      is_staff_member_def is_client_def CustomUserCreationForm_save_def
      VeterinarianForm_save_def)

theorem role_choices_exactly_one_predicate_witness:
  "role \<lparr>user_id = 1, username = ''ana'', email = ''ana@clinic.test'', full_name = ''Ana Vet'',
         role = ''vet''\<rparr> \<in> set (map fst ROLE_CHOICES)
   \<and> length (filter (\<lambda>p. p \<lparr>user_id = 1, username = ''ana'', email = ''ana@clinic.test'',
         full_name = ''Ana Vet'', role = ''vet''\<rparr>)
       [is_admin, is_vet, is_staff_member, is_client]) = 1"
  using role_choices_exactly_one_predicate
    [of undefined "\<lparr>user_id = 1, username = ''ana'', email = ''ana@clinic.test'',
         full_name = ''Ana Vet'', role = ''vet''\<rparr>"]
  by (simp add: ROLE_CHOICES_def)

section \<open>The builder\<close>


section \<open>Available slots of the client-facing repository\<close>

lemma is_available_no_overflow:
  assumes "\<forall>a\<in>set ex. 0 \<le> row_date_time a + d \<and> row_date_time a + d \<le> datetime_max"
    and "0 \<le> cur + d" and "cur + d \<le> datetime_max"
  shows "is_available ex d cur =
           Inr (\<not> (\<exists>a\<in>set ex. cur < row_date_time a + d \<and> row_date_time a < cur + d))"
  using assms by (induction ex) (auto simp: dt_add_def)

lemma div_zero_less:
  fixes x d :: int
  assumes "0 < d" and "x div d = 0"
  shows "x < d"
proof -
  have "x = d * (x div d) + x mod d" by simp
  then have "x = x mod d" using assms by simp
  moreover have "x mod d < d" using assms by simp
  ultimately show ?thesis by simp
qed

lemma div_pos_ge:
  fixes x d :: int
  assumes "0 < d" and "0 < x div d"
  shows "d \<le> x"
proof -
  have e: "x = d * (x div d) + x mod d" by simp
  have "0 \<le> x mod d" using assms by simp
  moreover have "d * 1 \<le> d * (x div d)"
    using assms by (intro mult_left_mono) auto
  ultimately show ?thesis using e by linarith
qed

lemma div_minus_self:
  fixes x d :: int
  assumes "0 < d"
  shows "(x - d) div d = x div d - 1"
proof -
  have "((x - d) + d) div d = (x - d) div d + 1"
    using assms by (subst div_add_self2) auto
  then show ?thesis by simp
qed


lemma slots_loop_returns:
  assumes "0 < d" and "0 \<le> cur" and "cur \<le> end_time" and "end_time + d \<le> datetime_max"
    and "\<forall>a\<in>set ex. 0 \<le> row_date_time a + d \<and> row_date_time a + d \<le> datetime_max"
    and "n = nat ((end_time - cur) div d)"
  shows "slots_loop ex d end_time cur acc =
           Some (Inr (acc @ filter (\<lambda>t. \<not> (\<exists>a\<in>set ex. t < row_date_time a + d \<and> row_date_time a < t + d))
                              (map (\<lambda>k. cur + int k * d) [0..<n])))"
  using assms
proof (induction n arbitrary: cur acc)
  case 0
  have "0 \<le> (end_time - cur) div d"
    using 0 by (simp add: pos_imp_zdiv_nonneg_iff)
  then have "(end_time - cur) div d = 0"
    using 0 by simp
  then have "end_time - cur < d"
    using 0 div_zero_less by blast
  then have gt: "\<not> cur + d \<le> end_time" by simp
  have add: "dt_add cur d = Inr (cur + d)"
    using 0 by (simp add: dt_add_def)
  show ?case
    by (subst slots_loop.simps) (simp add: add gt)
next
  case (Suc n)
  then have q: "(end_time - cur) div d = int n + 1"
    by linarith
  then have "d \<le> end_time - cur"
    using Suc.prems(1) div_pos_ge [of d "end_time - cur"] by simp
  then have le: "cur + d \<le> end_time" by simp
  have add: "dt_add cur d = Inr (cur + d)"
    using Suc.prems by (simp add: dt_add_def)
  have av: "is_available ex d cur =
      Inr (\<not> (\<exists>a\<in>set ex. cur < row_date_time a + d \<and> row_date_time a < cur + d))"
    using Suc.prems by (intro is_available_no_overflow) auto
  have "(end_time - (cur + d)) div d = (end_time - cur) div d - 1"
    using div_minus_self [OF Suc.prems(1), of "end_time - cur"] by (simp add: algebra_simps)
  then have n: "n = nat ((end_time - (cur + d)) div d)"
    using q by simp
  have ih: "slots_loop ex d end_time (cur + d) acc' =
           Some (Inr (acc' @ filter (\<lambda>t. \<not> (\<exists>a\<in>set ex. t < row_date_time a + d \<and> row_date_time a < t + d))
                              (map (\<lambda>k. (cur + d) + int k * d) [0..<n])))" for acc'
    using Suc.prems le n by (intro Suc.IH) auto
  have shift: "map (\<lambda>k. cur + int k * d) [0..<Suc n] = cur # map (\<lambda>k. (cur + d) + int k * d) [0..<n]"
    by (simp add: upt_conv_Cons map_Suc_upt [symmetric] algebra_simps del: upt_Suc)
  show ?case
    unfolding shift
    by (subst slots_loop.simps) (simp add: add le av ih)
qed



lemma le_div_iff_int:
  fixes x d m :: int
  assumes "0 < d"
  shows "m \<le> x div d \<longleftrightarrow> m * d \<le> x"
proof
  assume "m \<le> x div d"
  then have a: "m * d \<le> (x div d) * d"
    using assms by (intro mult_right_mono) auto
  have b: "x = (x div d) * d + x mod d" by simp
  have c: "0 \<le> x mod d" using assms by simp
  show "m * d \<le> x" using a b c by linarith
next
  assume "m * d \<le> x"
  then have "(m * d) div d \<le> x div d"
    using assms by (intro zdiv_mono1) auto
  then show "m \<le> x div d" using assms by simp
qed

lemma date_of_bounds:
  assumes "date_of t = dd"
  shows "dd * DAY \<le> t \<and> t < (dd + 1) * DAY"
proof -
  have pos: "0 < DAY" by (simp add: DAY_def)
  have e: "t = (t div DAY) * DAY + t mod DAY" by simp
  have f: "0 \<le> t mod DAY" "t mod DAY < DAY" using pos by simp_all
  have g: "(dd + 1) * DAY = dd * DAY + DAY" by (simp add: algebra_simps)
  have h: "t div DAY = dd" using assms by (simp add: date_of_def)
  show ?thesis using e f unfolding g h by linarith
qed



lemma strict_sorted_filter_map_upt:
  fixes d :: int
  assumes "0 < d"
  shows "sorted_wrt (<) (filter P (map (\<lambda>k. c + int k * d) [0..<n]))"
proof -
  have "sorted_wrt (\<lambda>x y. c + int x * d < c + int y * d) [0..<n]"
    by (rule sorted_wrt_mono_rel [where P = "(<)"]) (use assms in auto)
  then have "sorted_wrt (<) (map (\<lambda>k. c + int k * d) [0..<n])"
    by (simp add: sorted_wrt_map)
  then show ?thesis by (rule sorted_wrt_filter)
qed

lemma slot_index_bound:
  fixes d :: int
  assumes "0 < d"
  shows "k < nat ((e - c) div d) \<longleftrightarrow> c + int k * d + d \<le> e"
proof -
  have "k < nat ((e - c) div d) \<longleftrightarrow> int k + 1 \<le> (e - c) div d"
    by linarith
  also have "\<dots> \<longleftrightarrow> (int k + 1) * d \<le> e - c"
    using assms by (rule le_div_iff_int)
  also have "\<dots> \<longleftrightarrow> c + int k * d + d \<le> e"
    by (simp add: algebra_simps)
  finally show ?thesis .
qed


lemma slots_loop_zero_duration:
  assumes "slots_loop ex d e c acc = Some y"
  shows "\<not> (ex = [] \<and> d = 0 \<and> 0 \<le> c \<and> c \<le> e \<and> e \<le> datetime_max)"
proof (rule slots_loop.raw_induct
    [where P = "\<lambda>ex d e c acc y. \<not> (ex = [] \<and> d = 0 \<and> 0 \<le> c \<and> c \<le> e \<and> e \<le> datetime_max)",
      OF _ assms])
  fix loop :: "appointment_row list \<Rightarrow> int \<Rightarrow> int \<Rightarrow> int \<Rightarrow> int list \<Rightarrow> (error + int list) option"
    and ex d e c acc and y :: "error + int list"
  assume ih: "\<And>ex d e c acc y. loop ex d e c acc = Some y \<Longrightarrow>
      \<not> (ex = [] \<and> d = 0 \<and> 0 \<le> c \<and> c \<le> e \<and> e \<le> datetime_max)"
    and body: "(case dt_add c d of Inl err \<Rightarrow> Some (Inl err)
      | Inr slot_end \<Rightarrow>
          if slot_end \<le> e
          then case is_available ex d c of Inl err \<Rightarrow> Some (Inl err)
               | Inr ok \<Rightarrow> loop ex d e slot_end (if ok then acc @ [c] else acc)
          else Some (Inr acc)) = Some y"
  show "\<not> (ex = [] \<and> d = 0 \<and> 0 \<le> c \<and> c \<le> e \<and> e \<le> datetime_max)"
  proof
    assume a: "ex = [] \<and> d = 0 \<and> 0 \<le> c \<and> c \<le> e \<and> e \<le> datetime_max"
    then have "dt_add c d = Inr c" by (simp add: dt_add_def)
    with a body have "loop ex d e c (acc @ [c]) = Some y" by simp
    from ih [OF this] a show False by simp
  qed
qed

text \<open>
  C1, as the code has it. For every veterinarian, every date and every positive slot
  duration \<open>d\<close> such that the last instant of the date plus \<open>d\<close> is still a
  representable datetime, \<^verbatim>\<open>AppointmentRepository.get_available_slots\<close> returns, in
  increasing order, exactly the start times 9:00, 9:00 + d, 9:00 + 2d, ... whose slot
  \<open>[t, t + d)\<close> ends by 17:00 and does not overlap the interval
  \<open>[a.date_time, a.date_time + d)\<close> of any appointment of that veterinarian on that date
  with status \<^verbatim>\<open>confirmed\<close>.
\<close>

theorem get_available_slots_positive_duration:
  assumes "0 < d" and "0 \<le> date" and "combine_hour date 24 - 1 + d \<le> datetime_max"
  shows "\<exists>slots. get_available_slots table vet date d = Some (Inr slots)
           \<and> sorted_wrt (<) slots
           \<and> set slots =
               {t. (\<exists>k::nat. t = combine_hour date 9 + int k * d)
                   \<and> t + d \<le> combine_hour date 17
                   \<and> \<not> (\<exists>a\<in>set table.
                           user_id (row_veterinarian a) = user_id vet
                           \<and> date_of (row_date_time a) = date
                           \<and> row_status a = ''confirmed''
                           \<and> t < row_date_time a + d \<and> row_date_time a < t + d)}"
proof -
  define ex where "ex = sort_key row_date_time
              (filter (\<lambda>a. user_id (row_veterinarian a) = user_id vet
                           \<and> date_of (row_date_time a) = date
                           \<and> row_status a = ''confirmed'') table)"
  define free where "free = (\<lambda>t. \<not> (\<exists>a\<in>set ex. t < row_date_time a + d \<and> row_date_time a < t + d))"
  define n where "n = nat ((combine_hour date 17 - combine_hour date 9) div d)"
  define slots where "slots = filter free (map (\<lambda>k. combine_hour date 9 + int k * d) [0..<n])"
  have set_ex: "set ex = {a \<in> set table. user_id (row_veterinarian a) = user_id vet
                           \<and> date_of (row_date_time a) = date
                           \<and> row_status a = ''confirmed''}"
    by (auto simp: ex_def)
  have day: "0 < DAY" "0 < HOUR" "DAY = 24 * HOUR"
    by (simp_all add: DAY_def HOUR_def)
  have rows: "\<forall>a\<in>set ex. 0 \<le> row_date_time a + d \<and> row_date_time a + d \<le> datetime_max"
  proof
    fix a assume "a \<in> set ex"
    then have "date_of (row_date_time a) = date" by (simp add: set_ex)
    from date_of_bounds [OF this]
    have b: "date * DAY \<le> row_date_time a" "row_date_time a < (date + 1) * DAY" by simp_all
    have "0 \<le> date * DAY" using assms(2) day(1) by simp
    moreover have "(date + 1) * DAY = combine_hour date 24"
      by (simp add: combine_hour_def day(3) algebra_simps)
    ultimately show "0 \<le> row_date_time a + d \<and> row_date_time a + d \<le> datetime_max"
      using b assms(1,3) by linarith
  qed
  have nonneg: "0 \<le> date * DAY" using assms(2) day(1) by simp
  have c9: "0 \<le> combine_hour date 9" "combine_hour date 9 \<le> combine_hour date 17"
    "combine_hour date 17 + d \<le> datetime_max"
    using nonneg assms(3) day(2) by (simp_all add: combine_hour_def)
  have run: "slots_loop ex d (combine_hour date 17) (combine_hour date 9) [] = Some (Inr ([] @ slots))"
    unfolding slots_def free_def
    by (rule slots_loop_returns [OF assms(1) c9 rows n_def])
  have res: "get_available_slots table vet date d = Some (Inr slots)"
    using run by (simp add: get_available_slots_def ex_def)
  have sorted: "sorted_wrt (<) slots"
    unfolding slots_def by (rule strict_sorted_filter_map_upt [OF assms(1)])
  have mem: "t \<in> set slots \<longleftrightarrow>
      (\<exists>k::nat. t = combine_hour date 9 + int k * d) \<and> t + d \<le> combine_hour date 17 \<and> free t" for t
  proof -
    have "t \<in> set slots \<longleftrightarrow> (\<exists>k<n. t = combine_hour date 9 + int k * d) \<and> free t"
      by (auto simp: slots_def)
    also have "\<dots> \<longleftrightarrow> (\<exists>k::nat. t = combine_hour date 9 + int k * d \<and> t + d \<le> combine_hour date 17) \<and> free t"
      unfolding n_def slot_index_bound [OF assms(1)] by auto
    finally show ?thesis by auto
  qed
  have "set slots = {t. (\<exists>k::nat. t = combine_hour date 9 + int k * d)
                   \<and> t + d \<le> combine_hour date 17 \<and> free t}"
    using mem by auto
  then show ?thesis
    using res sorted unfolding free_def set_ex by auto
qed

theorem get_available_slots_positive_duration_witness:
  "0 < 2 * HOUR \<and> (0::int) \<le> 738000 \<and> combine_hour 738000 24 - 1 + 2 * HOUR \<le> datetime_max
   \<and> get_available_slots [row_at 1 (combine_hour 738000 10) ''confirmed''] vet_ana 738000 (2 * HOUR)
       = Some (Inr [combine_hour 738000 13, combine_hour 738000 15])
   \<and> (\<exists>slots. get_available_slots [row_at 1 (combine_hour 738000 10) ''confirmed''] vet_ana
                  738000 (2 * HOUR) = Some (Inr slots)
       \<and> sorted_wrt (<) slots
       \<and> set slots =
               {t. (\<exists>k::nat. t = combine_hour 738000 9 + int k * (2 * HOUR))
                   \<and> t + 2 * HOUR \<le> combine_hour 738000 17
                   \<and> \<not> (\<exists>a\<in>set [row_at 1 (combine_hour 738000 10) ''confirmed''].
                           user_id (row_veterinarian a) = user_id vet_ana
                           \<and> date_of (row_date_time a) = 738000
                           \<and> row_status a = ''confirmed''
                           \<and> t < row_date_time a + 2 * HOUR \<and> row_date_time a < t + 2 * HOUR)})"
proof -
  have h1: "0 < 2 * HOUR" by (simp add: HOUR_def)
  have h2: "(0::int) \<le> 738000" by simp
  have h3: "combine_hour 738000 24 - 1 + 2 * HOUR \<le> datetime_max"
    by (simp add: combine_hour_def HOUR_def DAY_def datetime_max_def date_max_def)
  have run: "get_available_slots [row_at 1 (combine_hour 738000 10) ''confirmed''] vet_ana 738000
        (2 * HOUR) = Some (Inr [combine_hour 738000 13, combine_hour 738000 15])"
    by code_simp
  show ?thesis
    using h1 h2 h3 run
      get_available_slots_positive_duration [OF h1 h2 h3,
        of "[row_at 1 (combine_hour 738000 10) ''confirmed'']" vet_ana]
    by simp
qed

text \<open>
  The claim as stated, for every duration, fails at the duration zero, where the loop
  never advances and never returns, and at a duration that leaves the range of
  datetimes: on the last representable date with slots of eight hours, the loop
  condition overflows after the first slot.
\<close>

theorem get_available_slots_counterexample:
  "get_available_slots [] vet_ana 738000 0 = None
   \<and> get_available_slots [] vet_ana date_max (8 * HOUR) = Some (Inl OverflowError)"
proof
  have "get_available_slots [] vet_ana 738000 0 \<noteq> Some y" for y
    using slots_loop_zero_duration [of "[]" 0 "combine_hour 738000 17" "combine_hour 738000 9" "[]" y]
    by (auto simp: get_available_slots_def combine_hour_def DAY_def HOUR_def datetime_max_def
        date_max_def)
  then show "get_available_slots [] vet_ana 738000 0 = None"
    by (cases "get_available_slots [] vet_ana 738000 0") auto
  show "get_available_slots [] vet_ana date_max (8 * HOUR) = Some (Inl OverflowError)"
    by code_simp
qed

section \<open>Available slots of the veterinarian-side repository\<close>

lemma slots_loop_django_steps:
  assumes "day_end = cur + int n * slot_duration"
  shows "slots_loop_django ex day_end cur acc =
           acc @ filter (\<lambda>t. t \<notin> set ex) (map (\<lambda>k. cur + int k * slot_duration) [0..<n])"
  using assms
proof (induction n arbitrary: cur acc)
  case 0
  then show ?case
    by (subst slots_loop_django.simps) simp
next
  case (Suc n)
  have pos: "0 < slot_duration" by (simp add: slot_duration_def MINUTE_def)
  then have "0 < int (Suc n) * slot_duration" by simp
  then have lt: "cur < day_end" using Suc.prems by linarith
  have e: "day_end = (cur + slot_duration) + int n * slot_duration"
    using Suc.prems by (simp add: algebra_simps)
  have shift: "map (\<lambda>k. cur + int k * slot_duration) [0..<Suc n] =
      cur # map (\<lambda>k. (cur + slot_duration) + int k * slot_duration) [0..<n]"
    by (simp add: upt_conv_Cons map_Suc_upt [symmetric] algebra_simps del: upt_Suc)
  show ?case
    unfolding shift
    by (subst slots_loop_django.simps) (simp add: lt Suc.IH [OF e])
qed

lemma django_slots_filter:
  "DjangoAppointmentRepository_get_available_slots table vet_id date =
     filter (\<lambda>t. \<not> (\<exists>a\<in>set table. user_id (row_veterinarian a) = vet_id \<and> row_date_time a = t))
       (map (\<lambda>k. replace_hour date 8 + int k * slot_duration) [0..<20])"
proof -
  define ex where "ex = map row_date_time
      (filter (\<lambda>a. user_id (row_veterinarian a) = vet_id
                 \<and> replace_hour date 8 \<le> row_date_time a
                 \<and> row_date_time a \<le> replace_hour date 18) table)"
  have e: "replace_hour date 18 = replace_hour date 8 + int 20 * slot_duration"
    by (simp add: replace_hour_def slot_duration_def MINUTE_def HOUR_def)
  have run: "DjangoAppointmentRepository_get_available_slots table vet_id date =
      filter (\<lambda>t. t \<notin> set ex) (map (\<lambda>k. replace_hour date 8 + int k * slot_duration) [0..<20])"
    using slots_loop_django_steps [OF e, of ex "[]"]
    by (simp add: DjangoAppointmentRepository_get_available_slots_def ex_def Let_def)
  have pos: "0 < slot_duration" by (simp add: slot_duration_def MINUTE_def)
  have "t \<notin> set ex \<longleftrightarrow>
      \<not> (\<exists>a\<in>set table. user_id (row_veterinarian a) = vet_id \<and> row_date_time a = t)"
    if "t \<in> set (map (\<lambda>k. replace_hour date 8 + int k * slot_duration) [0..<20])" for t
  proof -
    from that obtain k where k: "k < 20" "t = replace_hour date 8 + int k * slot_duration"
      by auto
    have "0 \<le> int k * slot_duration" using pos by simp
    moreover have "int k * slot_duration \<le> 20 * slot_duration"
      using k(1) pos by (intro mult_right_mono) auto
    ultimately have "replace_hour date 8 \<le> t \<and> t \<le> replace_hour date 18"
      using k(2) e by simp
    then show ?thesis by (auto simp: ex_def)
  qed
  then show ?thesis
    unfolding run by (intro filter_cong) auto
qed

text \<open>
  C2, as the code has it. For every veterinarian and date,
  \<^verbatim>\<open>DjangoAppointmentRepository.get_available_slots\<close> returns 30-minute slots of
  the window from 8:00 to 18:00 only, and it leaves such a slot out if and only if the
  start time of the slot is equal to the \<^verbatim>\<open>date_time\<close> of an existing appointment of
  that veterinarian.
\<close>

theorem django_slot_excluded_iff_same_start:
  "set (DjangoAppointmentRepository_get_available_slots table vet_id date)
     \<subseteq> {replace_hour date 8 + int k * slot_duration | k. k < 20}
   \<and> (k < 20 \<longrightarrow>
        (replace_hour date 8 + int k * slot_duration
           \<notin> set (DjangoAppointmentRepository_get_available_slots table vet_id date)
         \<longleftrightarrow> (\<exists>a\<in>set table. user_id (row_veterinarian a) = vet_id
                \<and> row_date_time a = replace_hour date 8 + int k * slot_duration)))"
  unfolding django_slots_filter by auto

theorem django_slot_excluded_iff_same_start_witness:
  "(2::nat) < 20
   \<and> replace_hour (combine_hour 738000 0) 8 + int 2 * slot_duration
        \<notin> set (DjangoAppointmentRepository_get_available_slots
                 [row_at 1 (combine_hour 738000 9) ''pending''] 1 (combine_hour 738000 0))
   \<and> (\<exists>a\<in>set [row_at 1 (combine_hour 738000 9) ''pending''].
         user_id (row_veterinarian a) = 1
         \<and> row_date_time a = replace_hour (combine_hour 738000 0) 8 + int 2 * slot_duration)"
  using django_slot_excluded_iff_same_start
    [of "[row_at 1 (combine_hour 738000 9) ''pending'']" 1 "combine_hour 738000 0" 2]
  by (simp add: row_at_def vet_ana_def replace_hour_def combine_hour_def date_of_def
      slot_duration_def MINUTE_def HOUR_def DAY_def)

text \<open>
  The claim as stated fails: with an appointment at 8:15, the slot from 8:00 to 8:30
  overlaps the half hour of the appointment and is still returned.
\<close>

theorem django_slot_overlap_counterexample:
  "combine_hour 738000 8
     \<in> set (DjangoAppointmentRepository_get_available_slots
              [row_at 1 (combine_hour 738000 8 + 15 * MINUTE) ''confirmed''] 1
              (combine_hour 738000 0))
   \<and> combine_hour 738000 8 < combine_hour 738000 8 + 15 * MINUTE + slot_duration
   \<and> combine_hour 738000 8 + 15 * MINUTE < combine_hour 738000 8 + slot_duration"
  by (simp add: django_slots_filter row_at_def vet_ana_def replace_hour_def combine_hour_def
      date_of_def slot_duration_def MINUTE_def HOUR_def DAY_def upt_rec)

section \<open>The repository\<close>

lemma find_key_absent:
  "(\<forall>x\<in>set xs. f x \<noteq> k) \<Longrightarrow> find (\<lambda>y. f y = k) xs = None"
  by (induction xs) auto

lemma find_key_present:
  "distinct (map f xs) \<Longrightarrow> x \<in> set xs \<Longrightarrow> find (\<lambda>y. f y = f x) xs = Some x"
  by (induction xs) force+

lemma key_unique:
  "distinct (map f xs) \<Longrightarrow> x \<in> set xs \<Longrightarrow> y \<in> set xs \<Longrightarrow> f y = f x \<Longrightarrow> y = x"
  by (meson distinct_map inj_onD)

lemma objects_get_absent:
  "(\<forall>x\<in>set (appointments s). row_id x \<noteq> i) \<Longrightarrow> objects_get i s = None"
  by (simp add: objects_get_def find_key_absent)

lemma objects_get_present:
  "distinct (map row_id (appointments s)) \<Longrightarrow> r \<in> set (appointments s) \<Longrightarrow>
   objects_get (row_id r) s = Some r"
  by (simp add: objects_get_def find_key_present)

lemma filter_other_keys:
  assumes "distinct (map row_id xs)" and "r \<in> set xs"
  shows "filter (\<lambda>x. row_id x \<noteq> row_id r) xs = filter (\<lambda>x. x \<noteq> r) xs"
  using key_unique [OF assms] by (intro filter_cong) auto

lemma map_at_key:
  assumes "distinct (map row_id xs)" and "r \<in> set xs"
  shows "map (\<lambda>x. if row_id x = row_id r then g x else x) xs = map (\<lambda>x. if x = r then g r else x) xs"
  using key_unique [OF assms] by (intro map_cong) auto

text \<open>
  C9. \<^verbatim>\<open>DjangoAppointmentRepository\<close> reports absence without raising: for an id
  with no matching appointment, \<^verbatim>\<open>get_by_id\<close> returns \<^verbatim>\<open>None\<close>, and \<^verbatim>\<open>delete\<close> and
  \<^verbatim>\<open>update_status\<close> return \<^verbatim>\<open>False\<close> and leave the store unchanged; for the id of a
  stored appointment, \<^verbatim>\<open>delete\<close> returns \<^verbatim>\<open>True\<close> and removes exactly that
  appointment from the appointment table, and \<^verbatim>\<open>update_status\<close> returns \<^verbatim>\<open>True\<close> and
  changes only the status of that appointment. Primary keys are unique.
\<close>

theorem repository_reports_absence:
  "((\<forall>x\<in>set (appointments s). row_id x \<noteq> i) \<longrightarrow>
      get_by_id i s = None
      \<and> delete i s = (False, s)
      \<and> update_status i st s = (Inr False, s))
   \<and> (distinct (map row_id (appointments s)) \<and> r \<in> set (appointments s) \<longrightarrow>
      get_by_id (row_id r) s = Some (from_row r)
      \<and> delete (row_id r) s =
          (True, s\<lparr>appointments := filter (\<lambda>x. x \<noteq> r) (appointments s),
                    notifications :=
                      filter (\<lambda>n. n_appointment n \<noteq> row_id r) (notifications s)\<rparr>)
      \<and> update_status (row_id r) st s =
          (Inr True,
           s\<lparr>appointments :=
               map (\<lambda>x. if x = r then r\<lparr>row_status := st\<rparr> else x) (appointments s)\<rparr>))"
proof (intro conjI impI)
  assume a: "\<forall>x\<in>set (appointments s). row_id x \<noteq> i"
  show "get_by_id i s = None"
    by (simp add: get_by_id_def objects_get_absent [OF a])
  show "delete i s = (False, s)"
    by (simp add: delete_def objects_get_absent [OF a])
  show "update_status i st s = (Inr False, s)"
    by (simp add: update_status_def objects_get_absent [OF a])
next
  assume "distinct (map row_id (appointments s)) \<and> r \<in> set (appointments s)"
  then have d: "distinct (map row_id (appointments s))" and m: "r \<in> set (appointments s)"
    by simp_all
  have g: "objects_get (row_id r) s = Some r"
    by (rule objects_get_present [OF d m])
  have ex: "\<exists>x\<in>set (appointments s). row_id x = row_id r"
    using m by blast
  show "get_by_id (row_id r) s = Some (from_row r)"
    by (simp add: get_by_id_def g)
  show "delete (row_id r) s =
          (True, s\<lparr>appointments := filter (\<lambda>x. x \<noteq> r) (appointments s),
                    notifications :=
                      filter (\<lambda>n. n_appointment n \<noteq> row_id r) (notifications s)\<rparr>)"
    by (simp add: delete_def g delete_row_def filter_other_keys [OF d m])
  show "update_status (row_id r) st s =
          (Inr True,
           s\<lparr>appointments :=
               map (\<lambda>x. if x = r then r\<lparr>row_status := st\<rparr> else x) (appointments s)\<rparr>)"
  proof -
    have "save_status ((from_row r)\<lparr>status := st\<rparr>) s =
        (Inr (),
         s\<lparr>appointments :=
             map (\<lambda>x. if row_id x = row_id r then x\<lparr>row_status := st\<rparr> else x)
               (appointments s)\<rparr>)"
      using ex by (simp add: save_status_def from_row_def)
    then show ?thesis
      unfolding map_at_key [OF d m, of "\<lambda>x. x\<lparr>row_status := st\<rparr>"]
      by (simp add: update_status_def g)
  qed
qed

theorem repository_reports_absence_witness:
  "7 \<notin> row_id ` set (appointments clinic_store)
   \<and> get_by_id 7 clinic_store = None
   \<and> delete 7 clinic_store = (False, clinic_store)
   \<and> update_status 7 ''cancelled'' clinic_store = (Inr False, clinic_store)
   \<and> distinct (map row_id (appointments clinic_store))
   \<and> row_at 1 (combine_hour 738000 10) ''confirmed'' \<in> set (appointments clinic_store)
   \<and> appointments (snd (delete 1 clinic_store)) = [row_at 2 (combine_hour 738000 11) ''pending'']
   \<and> appointments (snd (update_status 1 ''cancelled'' clinic_store)) =
       [row_at 1 (combine_hour 738000 10) ''cancelled'',
        row_at 2 (combine_hour 738000 11) ''pending'']"
proof -
  have a: "\<forall>x\<in>set (appointments clinic_store). row_id x \<noteq> 7"
    by (simp add: clinic_store_def row_at_def)
  have d: "distinct (map row_id (appointments clinic_store))
      \<and> row_at 1 (combine_hour 738000 10) ''confirmed'' \<in> set (appointments clinic_store)"
    by (simp add: clinic_store_def row_at_def)
  have k: "row_id (row_at 1 (combine_hour 738000 10) ''confirmed'') = 1"
    by (simp add: row_at_def)
  note t = repository_reports_absence
    [of clinic_store 7 "''cancelled''" "row_at 1 (combine_hour 738000 10) ''confirmed''"]
  from t a have "get_by_id 7 clinic_store = None \<and> delete 7 clinic_store = (False, clinic_store)
      \<and> update_status 7 ''cancelled'' clinic_store = (Inr False, clinic_store)"
    by blast
  moreover from t d have "delete 1 clinic_store =
          (True, clinic_store\<lparr>appointments :=
              filter (\<lambda>x. x \<noteq> row_at 1 (combine_hour 738000 10) ''confirmed'')
                (appointments clinic_store),
            notifications := filter (\<lambda>n. n_appointment n \<noteq> 1) (notifications clinic_store)\<rparr>)
      \<and> update_status 1 ''cancelled'' clinic_store =
          (Inr True,
           clinic_store\<lparr>appointments :=
               map (\<lambda>x. if x = row_at 1 (combine_hour 738000 10) ''confirmed''
                         then (row_at 1 (combine_hour 738000 10) ''confirmed'')
                                \<lparr>row_status := ''cancelled''\<rparr>
                         else x) (appointments clinic_store)\<rparr>)"
    unfolding k by blast
  ultimately show ?thesis
    using a d by (simp add: clinic_store_def row_at_def combine_hour_def)
qed

section \<open>Processing an appointment\<close>

lemma get_by_id_stored:
  "distinct (map row_id (appointments s)) \<Longrightarrow> r \<in> set (appointments s) \<Longrightarrow>
   get_by_id (row_id r) s = Some (from_row r)"
  by (simp add: get_by_id_def objects_get_present)

lemma get_by_id_absent:
  "(\<forall>x\<in>set (appointments s). row_id x \<noteq> i) \<Longrightarrow> get_by_id i s = None"
  by (simp add: get_by_id_def objects_get_absent)

lemma save_stored:
  assumes "pk a = Some i" and "to_row i a = Inr r'"
    and "\<exists>x\<in>set (appointments s). row_id x = i"
  shows "save a s =
    (Inr a, s\<lparr>appointments := map (\<lambda>x. if row_id x = i then r' else x) (appointments s)\<rparr>)"
  using assms by (simp add: save_def)

lemma vet_observer_update_frame:
  "vet_observer_update ob a ev s = (res, s') \<Longrightarrow>
   res \<noteq> Inl ValueError \<and> appointments s' = appointments s \<and> next_id s' = next_id s
   \<and> factory_observers s' = factory_observers s"
  by (cases ob)
    (auto simp: notify_vet_def send_mail_def split: if_splits option.splits)

lemma notify_observers_frame:
  "notify_observers obs a ev s = (res, s') \<Longrightarrow>
   res \<noteq> Inl ValueError \<and> appointments s' = appointments s"
proof (induction obs arbitrary: s)
  case Nil
  then show ?case by auto
next
  case (Cons ob obs)
  obtain r1 s1 where u: "vet_observer_update ob a ev s = (r1, s1)"
    by (cases "vet_observer_update ob a ev s")
  from vet_observer_update_frame [OF u]
  have f: "r1 \<noteq> Inl ValueError" "appointments s1 = appointments s" by simp_all
  show ?case
  proof (cases r1)
    case (Inl e)
    with Cons.prems u f show ?thesis by auto
  next
    case (Inr x)
    with Cons.prems u have "notify_observers obs a ev s1 = (res, s')" by simp
    from Cons.IH [OF this] f show ?thesis by simp
  qed
qed

lemma notify_observers_reschedule:
  "EmergencyAlertObserver \<notin> set obs \<Longrightarrow> notify_observers obs a ''reschedule'' s = (Inr (), s)"
proof (induction obs)
  case Nil
  then show ?case by simp
next
  case (Cons ob obs)
  then show ?case by (cases ob) simp_all
qed

lemma from_row_fields:
  "pk (from_row r) = Some (row_id r)"
  "pet (from_row r) = Some (row_pet r)"
  "service_type (from_row r) = Some (row_service_type r)"
  "veterinarian (from_row r) = Some (row_veterinarian r)"
  "date_time (from_row r) = Some (row_date_time r)"
  "clinic_branch (from_row r) = Some (row_clinic_branch r)"
  "appt_notes (from_row r) = row_notes r"
  "status (from_row r) = row_status r"
  by (simp_all add: from_row_def)

lemma reschedule_execute_stored:
  assumes d: "distinct (map row_id (appointments s))" and m: "r \<in> set (appointments s)"
    and n: "kw_new_datetime kw = Some new_datetime"
  shows "RescheduleStrategy_execute (from_row r) kw s =
    (Inr ((from_row r)\<lparr>date_time := Some new_datetime\<rparr>),
     send_mail Rescheduled [email (owner (row_pet r))]
       (s\<lparr>appointments :=
            map (\<lambda>x. if x = r then r\<lparr>row_date_time := new_datetime\<rparr> else x)
              (appointments s)\<rparr>))"
proof -
  have ex: "\<exists>x\<in>set (appointments s). row_id x = row_id r" using m by blast
  have sv: "save_date_time ((from_row r)\<lparr>date_time := Some new_datetime\<rparr>) s =
      (Inr (),
       s\<lparr>appointments :=
           map (\<lambda>x. if x = r then r\<lparr>row_date_time := new_datetime\<rparr> else x)
             (appointments s)\<rparr>)"
    using ex
    by (simp add: save_date_time_def from_row_fields
        map_at_key [OF d m, of "\<lambda>x. x\<lparr>row_date_time := new_datetime\<rparr>"])
  show ?thesis
    by (simp add: RescheduleStrategy_execute_def n Let_def sv notify_rescheduled_def
        from_row_fields)
qed

lemma map_replace_twice:
  "map (\<lambda>x. if row_id x = row_id r then r' else x) (map (\<lambda>x. if x = r then r' else x) xs) =
   map (\<lambda>x. if x = r then r' else x) xs"
  if "row_id r' = row_id r" and "distinct (map row_id xs)" and "r \<in> set xs"
proof -
  have "(if row_id (if x = r then r' else x) = row_id r then r' else (if x = r then r' else x)) =
      (if x = r then r' else x)" if "x \<in> set xs" for x
    using key_unique [OF \<open>distinct (map row_id xs)\<close> \<open>r \<in> set xs\<close> that] \<open>row_id r' = row_id r\<close>
    by auto
  then show ?thesis by (simp add: comp_def)
qed

text \<open>
  C4. For every stored appointment and every new date and time,
  \<^verbatim>\<open>process_appointment(id, 'reschedule', new_datetime=...)\<close> assigns the new value to
  the \<^verbatim>\<open>date_time\<close> of the appointment and writes the record, and leaves every other
  field of it (status, veterinarian, pet, service type, clinic branch, notes) and every
  other appointment unchanged; when no registered observer raises, the call returns the
  appointment with the new date and time. Primary keys are unique.
\<close>

theorem reschedule_changes_date_time_only:
  assumes "distinct (map row_id (appointments s))" and "r \<in> set (appointments s)"
    and "kw_new_datetime kw = Some new_datetime"
  shows "appointments (snd (process_appointment (row_id r) ''reschedule'' kw s)) =
           map (\<lambda>x. if x = r then r\<lparr>row_date_time := new_datetime\<rparr> else x) (appointments s)
         \<and> (EmergencyAlertObserver \<notin> set (factory_observers s) \<longrightarrow>
             fst (process_appointment (row_id r) ''reschedule'' kw s) =
               Inr ((from_row r)\<lparr>date_time := Some new_datetime\<rparr>))"
proof -
  define r' where "r' = r\<lparr>row_date_time := new_datetime\<rparr>"
  define a where "a = (from_row r)\<lparr>date_time := Some new_datetime\<rparr>"
  define s1 where "s1 = send_mail Rescheduled [email (owner (row_pet r))]
       (s\<lparr>appointments := map (\<lambda>x. if x = r then r' else x) (appointments s)\<rparr>)"
  have ex1: "RescheduleStrategy_execute (from_row r) kw s = (Inr a, s1)"
    using reschedule_execute_stored [OF assms] unfolding a_def s1_def r'_def by simp
  have ap1: "appointments s1 = map (\<lambda>x. if x = r then r' else x) (appointments s)"
    by (simp add: s1_def send_mail_def)
  have "r' \<in> set (appointments s1)"
    using assms(2) by (auto simp: ap1)
  moreover have "row_id r' = row_id r"
    by (simp add: r'_def)
  ultimately have ex: "\<exists>x\<in>set (appointments s1). row_id x = row_id r"
    by blast
  have tr: "to_row (row_id r) a = Inr r'"
    by (simp add: to_row_def a_def from_row_def r'_def)
  have pk: "pk a = Some (row_id r)"
    by (simp add: a_def from_row_def)
  have sv: "repository_save a s1 = (Inr a, s1)"
  proof -
    have "map (\<lambda>x. if row_id x = row_id r then r' else x) (appointments s1) = appointments s1"
      unfolding ap1
      by (rule map_replace_twice) (use assms in \<open>simp_all add: r'_def\<close>)
    then show ?thesis
      unfolding repository_save_def save_stored [OF pk tr ex] by simp
  qed
  have fo: "factory_observers s1 = factory_observers s"
    by (simp add: s1_def send_mail_def)
  obtain res s3 where no: "notify_observers (factory_observers s1) a ''reschedule'' s1 = (res, s3)"
    by (cases "notify_observers (factory_observers s1) a ''reschedule'' s1")
  have ap3: "appointments s3 = appointments s1"
    using notify_observers_frame [OF no] by simp
  have gs: "get_strategy ''reschedule'' = Inr RescheduleStrategy"
    by (simp add: get_strategy_def strategies_def)
  have run: "process_appointment (row_id r) ''reschedule'' kw s =
      (case res of Inl e \<Rightarrow> (Inl e, s3) | Inr _ \<Rightarrow> (Inr a, s3))"
    unfolding process_appointment_def get_by_id_stored [OF assms(1,2)] gs
    by (simp add: ex1 sv no split: sum.splits)
  have "appointments (snd (process_appointment (row_id r) ''reschedule'' kw s)) = appointments s3"
    unfolding run by (cases res) simp_all
  moreover have "fst (process_appointment (row_id r) ''reschedule'' kw s) = Inr a"
    if "EmergencyAlertObserver \<notin> set (factory_observers s)"
  proof -
    from that no have "res = Inr ()"
      by (simp add: fo notify_observers_reschedule)
    then show ?thesis unfolding run by simp
  qed
  ultimately show ?thesis
    by (simp add: ap3 ap1 r'_def a_def)
qed

theorem reschedule_changes_date_time_only_witness:
  "distinct (map row_id (appointments clinic_store))
   \<and> row_at 1 (combine_hour 738000 10) ''confirmed'' \<in> set (appointments clinic_store)
   \<and> kw_new_datetime (no_kwargs\<lparr>kw_new_datetime := Some (combine_hour 738001 9)\<rparr>)
       = Some (combine_hour 738001 9)
   \<and> appointments (snd (process_appointment 1 ''reschedule''
         (no_kwargs\<lparr>kw_new_datetime := Some (combine_hour 738001 9)\<rparr>) clinic_store)) =
       [row_at 1 (combine_hour 738001 9) ''confirmed'',
        row_at 2 (combine_hour 738000 11) ''pending'']
   \<and> fst (process_appointment 1 ''reschedule''
         (no_kwargs\<lparr>kw_new_datetime := Some (combine_hour 738001 9)\<rparr>) clinic_store) =
       Inr ((from_row (row_at 1 (combine_hour 738000 10) ''confirmed''))
              \<lparr>date_time := Some (combine_hour 738001 9)\<rparr>)"
proof -
  have d: "distinct (map row_id (appointments clinic_store))"
    by (simp add: clinic_store_def row_at_def)
  have m: "row_at 1 (combine_hour 738000 10) ''confirmed'' \<in> set (appointments clinic_store)"
    by (simp add: clinic_store_def)
  have n: "kw_new_datetime (no_kwargs\<lparr>kw_new_datetime := Some (combine_hour 738001 9)\<rparr>)
       = Some (combine_hour 738001 9)"
    by simp
  have k: "row_id (row_at 1 (combine_hour 738000 10) ''confirmed'') = 1"
    by (simp add: row_at_def)
  have o: "EmergencyAlertObserver \<notin> set (factory_observers clinic_store)"
    by (simp add: clinic_store_def)
  have t: "combine_hour 738000 11 \<noteq> combine_hour 738000 10"
    by (simp add: combine_hour_def HOUR_def)
  have l: "map (\<lambda>x. if x = row_at 1 (combine_hour 738000 10) ''confirmed''
                    then (row_at 1 (combine_hour 738000 10) ''confirmed'')
                           \<lparr>row_date_time := combine_hour 738001 9\<rparr>
                    else x) (appointments clinic_store) =
       [row_at 1 (combine_hour 738001 9) ''confirmed'',
        row_at 2 (combine_hour 738000 11) ''pending'']"
    using t by (simp add: clinic_store_def row_at_def)
  show ?thesis
    using reschedule_changes_date_time_only [OF d m n] d m n o
    unfolding k l by simp
qed

section \<open>Errors of process_appointment\<close>

lemma objects_get_cases:
  obtains "\<forall>x\<in>set (appointments s). row_id x \<noteq> i" and "objects_get i s = None"
  | r where "r \<in> set (appointments s)" and "row_id r = i" and "objects_get i s = Some r"
proof (cases "objects_get i s")
  case None
  then have "\<forall>x\<in>set (appointments s). row_id x \<noteq> i"
    by (auto simp: objects_get_def find_None_iff)
  with None that(1) show ?thesis by blast
next
  case (Some r)
  then have "r \<in> set (appointments s) \<and> row_id r = i"
    unfolding objects_get_def find_Some_iff by auto
  with Some that(2) show ?thesis by blast
qed

lemma loaded_from_row: "loaded (row_id r) (from_row r)"
  by (simp add: loaded_def from_row_def)

lemma to_row_loaded: "loaded i a \<Longrightarrow> \<exists>r. to_row i a = Inr r"
  by (auto simp: loaded_def to_row_def)

lemma save_loaded:
  assumes "loaded i a" and "\<exists>x\<in>set (appointments s). row_id x = i"
  shows "\<exists>s1. save a s = (Inr a, s1) \<and> (\<exists>x\<in>set (appointments s1). row_id x = i)
            \<and> factory_observers s1 = factory_observers s"
proof -
  from to_row_loaded [OF assms(1)] obtain r where r: "to_row i a = Inr r" by blast
  then have k: "row_id r = i"
    using assms(1) by (auto simp: to_row_def loaded_def)
  have "pk a = Some i" using assms(1) by (simp add: loaded_def)
  from save_stored [OF this r assms(2)] assms(2) k show ?thesis
    by auto
qed

lemma map_keeps_key:
  assumes "\<exists>x\<in>set xs. row_id x = i" and "\<And>x. row_id (g x) = row_id x"
  shows "\<exists>x\<in>set (map (\<lambda>x. if row_id x = i then g x else x) xs). row_id x = i"
proof -
  from assms(1) obtain x where x: "x \<in> set xs" "row_id x = i" by blast
  then have "g x \<in> set (map (\<lambda>x. if row_id x = i then g x else x) xs)"
    by (force simp: image_iff)
  moreover have "row_id (g x) = i" using assms(2) x(2) by simp
  ultimately show ?thesis by blast
qed

lemma complete_execute_loaded:
  assumes "loaded i a" and "\<exists>x\<in>set (appointments s). row_id x = i"
  shows "\<exists>res s1. CompleteAppointmentStrategy_execute a kw s = (res, s1)
           \<and> res \<noteq> Inl ValueError
           \<and> (\<forall>a1. res = Inr a1 \<longrightarrow> loaded i a1 \<and> (\<exists>x\<in>set (appointments s1). row_id x = i))"
proof -
  define a' where "a' = a\<lparr>status := ''completed'',
      treatment_notes := Some (get_default (kw_treatment_notes kw) ''''),
      diagnosis := Some (get_default (kw_diagnosis kw) ''''),
      follow_up_date := kw_follow_up_date kw\<rparr>"
  have eq: "CompleteAppointmentStrategy_execute a kw s =
      (case save a' s of
         (Inl e, s1) \<Rightarrow> (Inl e, s1)
       | (Inr a1, s1) \<Rightarrow>
           (case kw_follow_up_date kw of
              None \<Rightarrow> (Inr a1, s1)
            | Some follow_up \<Rightarrow>
                (case schedule_follow_up a1 follow_up s1 of
                   (Inl e, s2) \<Rightarrow> (Inl e, s2)
                 | (Inr _, s2) \<Rightarrow> (Inr a1, s2))))"
    unfolding CompleteAppointmentStrategy_execute_def a'_def Let_def ..
  have l: "loaded i a'" using assms(1) by (simp add: loaded_def a'_def)
  from save_loaded [OF l assms(2)] obtain s1 where
    s1: "save a' s = (Inr a', s1)" "\<exists>x\<in>set (appointments s1). row_id x = i" by blast
  show ?thesis
    unfolding eq s1(1) using l s1(2)
    by (cases "kw_follow_up_date kw")
      (simp_all add: schedule_follow_up_def AppointmentBuilder_service_method_def)
qed

lemma reschedule_execute_loaded:
  assumes "loaded i a" and "\<exists>x\<in>set (appointments s). row_id x = i"
  shows "\<exists>res s1. RescheduleStrategy_execute a kw s = (res, s1)
           \<and> (res = Inl ValueError \<longleftrightarrow> kw_new_datetime kw = None)
           \<and> (res = Inl ValueError \<longrightarrow> s1 = s)
           \<and> (\<forall>a1. res = Inr a1 \<longrightarrow> loaded i a1 \<and> (\<exists>x\<in>set (appointments s1). row_id x = i))"
proof (cases "kw_new_datetime kw")
  case None
  then show ?thesis by (simp add: RescheduleStrategy_execute_def)
next
  case (Some t)
  define a' where "a' = a\<lparr>date_time := Some t\<rparr>"
  define s1 where "s1 = s\<lparr>appointments :=
      map (\<lambda>x. if row_id x = i then x\<lparr>row_date_time := t\<rparr> else x) (appointments s)\<rparr>"
  have l: "loaded i a'" using assms(1) by (simp add: loaded_def a'_def)
  have ex: "\<exists>x\<in>set (appointments s1). row_id x = i"
    unfolding s1_def using map_keeps_key [OF assms(2), of "\<lambda>x. x\<lparr>row_date_time := t\<rparr>"]
    by simp
  have sv: "save_date_time a' s = (Inr (), s1)"
    using l assms(2) by (simp add: save_date_time_def loaded_def a'_def s1_def)
  obtain od p v where f: "date_time a = Some od" "pet a' = Some p" "veterinarian a' = Some v"
    using assms(1) by (auto simp: loaded_def a'_def)
  have eq: "RescheduleStrategy_execute a kw s =
      (case save_date_time a' s of
         (Inl e, s1) \<Rightarrow> (Inl e, s1)
       | (Inr _, s1) \<Rightarrow>
           (case notify_rescheduled a' (date_time a) s1 of
              (Inl e, s2) \<Rightarrow> (Inl e, s2)
            | (Inr _, s2) \<Rightarrow> (Inr a', s2)))"
    unfolding RescheduleStrategy_execute_def a'_def Let_def Some by simp
  show ?thesis
    unfolding eq sv using l ex Some
    by (simp add: notify_rescheduled_def f send_mail_def)
qed

lemma cancel_execute_loaded:
  assumes "loaded i a" and "\<exists>x\<in>set (appointments s). row_id x = i"
  shows "\<exists>res s1. CancellationStrategy_execute a kw s = (res, s1)
           \<and> res \<noteq> Inl ValueError
           \<and> (\<forall>a1. res = Inr a1 \<longrightarrow> loaded i a1 \<and> (\<exists>x\<in>set (appointments s1). row_id x = i))"
proof -
  define a' where "a' = a\<lparr>status := ''cancelled'',
      cancellation_reason := Some (get_default (kw_reason kw) '''')\<rparr>"
  have eq: "CancellationStrategy_execute a kw s =
      (case save a' s of
         (Inl e, s1) \<Rightarrow> (Inl e, s1)
       | (Inr a1, s1) \<Rightarrow>
           if get_default (kw_notify_client kw) True then
             (case notify_cancellation a1 s1 of
                (Inl e, s2) \<Rightarrow> (Inl e, s2)
              | (Inr _, s2) \<Rightarrow> (Inr a1, s2))
           else (Inr a1, s1))"
    unfolding CancellationStrategy_execute_def a'_def Let_def ..
  have l: "loaded i a'" using assms(1) by (simp add: loaded_def a'_def)
  from save_loaded [OF l assms(2)] obtain s1 where
    s1: "save a' s = (Inr a', s1)" "\<exists>x\<in>set (appointments s1). row_id x = i" by blast
  obtain t p v where f: "date_time a' = Some t" "pet a' = Some p" "veterinarian a' = Some v"
    using l by (auto simp: loaded_def)
  show ?thesis
    unfolding eq s1(1) using l s1(2)
    by (simp add: notify_cancellation_def f send_mail_def)
qed

lemma no_show_execute_loaded:
  assumes "loaded i a" and "\<exists>x\<in>set (appointments s). row_id x = i"
  shows "\<exists>res s1. NoShowStrategy_execute a kw s = (res, s1)
           \<and> res \<noteq> Inl ValueError
           \<and> (\<forall>a1. res = Inr a1 \<longrightarrow> loaded i a1 \<and> (\<exists>x\<in>set (appointments s1). row_id x = i))"
proof -
  define a' where "a' = a\<lparr>status := ''no_show'',
      appt_notes := ''No-show: '' @ get_default (kw_notes kw) ''''\<rparr>"
  have eq: "NoShowStrategy_execute a kw s =
      (case save a' s of
         (Inl e, s1) \<Rightarrow> (Inl e, s1)
       | (Inr a1, s1) \<Rightarrow>
           (case notify_no_show a1 s1 of
              (Inl e, s2) \<Rightarrow> (Inl e, s2)
            | (Inr _, s2) \<Rightarrow> (Inr a1, s2)))"
    unfolding NoShowStrategy_execute_def a'_def Let_def ..
  have l: "loaded i a'" using assms(1) by (simp add: loaded_def a'_def)
  from save_loaded [OF l assms(2)] obtain s1 where
    s1: "save a' s = (Inr a', s1)" "\<exists>x\<in>set (appointments s1). row_id x = i" by blast
  obtain t p v where f: "date_time a' = Some t" "pet a' = Some p" "veterinarian a' = Some v"
    using l by (auto simp: loaded_def)
  show ?thesis
    unfolding eq s1(1) using l s1(2)
    by (simp add: notify_no_show_def f send_mail_def)
qed

lemma refer_execute_loaded:
  assumes "loaded i a" and "\<exists>x\<in>set (appointments s). row_id x = i"
  shows "\<exists>res s1. ReferralStrategy_execute a kw s = (res, s1)
           \<and> (res = Inl ValueError \<longleftrightarrow> (\<forall>u. kw_new_vet kw \<noteq> Some (User_instance u)))
           \<and> (res = Inl ValueError \<longrightarrow> s1 = s)
           \<and> (\<forall>a1. res = Inr a1 \<longrightarrow> loaded i a1 \<and> (\<exists>x\<in>set (appointments s1). row_id x = i))"
proof -
  from assms(1) obtain old_vet where ov: "veterinarian a = Some old_vet"
    by (auto simp: loaded_def)
  show ?thesis
  proof (cases "kw_new_vet kw")
    case None
    then show ?thesis by (simp add: ReferralStrategy_execute_def)
  next
    case (Some nv)
    show ?thesis
    proof (cases nv)
      case (Veterinarian_instance p)
      with Some show ?thesis
        by (simp add: ReferralStrategy_execute_def ov assign_veterinarian_def)
    next
      case (User_instance new_vet)
      define a' where "a' = a\<lparr>veterinarian := Some new_vet,
          appt_notes := ''Referred by Dr. '' @ full_name old_vet @ '': ''
                          @ get_default (kw_notes kw) ''''\<rparr>"
      have eq: "ReferralStrategy_execute a kw s =
          (case save a' s of
             (Inl e, s1) \<Rightarrow> (Inl e, s1)
           | (Inr a1, s1) \<Rightarrow>
               (case notify_referral a1 new_vet s1 of
                  (Inl e, s2) \<Rightarrow> (Inl e, s2)
                | (Inr _, s2) \<Rightarrow> (Inr a1, s2)))"
        unfolding ReferralStrategy_execute_def a'_def Let_def Some User_instance ov
        by (simp add: assign_veterinarian_def)
      have l: "loaded i a'" using assms(1) by (simp add: loaded_def a'_def)
      from save_loaded [OF l assms(2)] obtain s1 where
        s1: "save a' s = (Inr a', s1)" "\<exists>x\<in>set (appointments s1). row_id x = i" by blast
      obtain t p where f: "date_time a' = Some t" "pet a' = Some p"
        using l by (auto simp: loaded_def)
      show ?thesis
        unfolding eq s1(1) using l s1(2) Some User_instance
        by (simp add: notify_referral_def f send_mail_def)
    qed
  qed
qed

lemma execute_loaded:
  assumes "loaded i a" and "\<exists>x\<in>set (appointments s). row_id x = i"
  shows "\<exists>res s1. execute st a kw s = (res, s1)
           \<and> (res = Inl ValueError \<longleftrightarrow>
                 st = RescheduleStrategy \<and> kw_new_datetime kw = None
                 \<or> st = ReferralStrategy \<and> (\<forall>u. kw_new_vet kw \<noteq> Some (User_instance u)))
           \<and> (res = Inl ValueError \<longrightarrow> s1 = s)
           \<and> (\<forall>a1. res = Inr a1 \<longrightarrow> loaded i a1 \<and> (\<exists>x\<in>set (appointments s1). row_id x = i))"
proof (cases st)
  case CompleteAppointmentStrategy
  with complete_execute_loaded [OF assms, of kw] show ?thesis by auto
next
  case RescheduleStrategy
  with reschedule_execute_loaded [OF assms, of kw] show ?thesis by auto
next
  case CancellationStrategy
  with cancel_execute_loaded [OF assms, of kw] show ?thesis by auto
next
  case NoShowStrategy
  with no_show_execute_loaded [OF assms, of kw] show ?thesis by auto
next
  case ReferralStrategy
  with refer_execute_loaded [OF assms, of kw] show ?thesis by auto
qed

lemma get_strategy_table:
  "get_strategy ''complete'' = Inr CompleteAppointmentStrategy"
  "get_strategy ''reschedule'' = Inr RescheduleStrategy"
  "get_strategy ''cancel'' = Inr CancellationStrategy"
  "get_strategy ''no_show'' = Inr NoShowStrategy"
  "get_strategy ''refer'' = Inr ReferralStrategy"
  by (simp_all add: get_strategy_def strategies_def)

lemma get_strategy_unknown:
  "get_strategy action = Inl ValueError \<longleftrightarrow>
     action \<notin> {''complete'', ''reschedule'', ''cancel'', ''no_show'', ''refer''}"
  by (auto simp: get_strategy_def strategies_def)

lemma get_strategy_known:
  "get_strategy action = Inr st \<Longrightarrow>
     (st = RescheduleStrategy \<longleftrightarrow> action = ''reschedule'')
     \<and> (st = ReferralStrategy \<longleftrightarrow> action = ''refer'')"
  by (auto simp: get_strategy_def strategies_def split: if_splits)

lemma process_appointment_stored:
  assumes r: "r \<in> set (appointments s)" "objects_get (row_id r) s = Some r"
    and st: "get_strategy action = Inr st"
  shows "(fst (process_appointment (row_id r) action kw s) = Inl ValueError \<longleftrightarrow>
            action = ''reschedule'' \<and> kw_new_datetime kw = None
            \<or> action = ''refer'' \<and> (\<forall>u. kw_new_vet kw \<noteq> Some (User_instance u)))
         \<and> (fst (process_appointment (row_id r) action kw s) = Inl ValueError \<longrightarrow>
              snd (process_appointment (row_id r) action kw s) = s)"
proof -
  have ex: "\<exists>x\<in>set (appointments s). row_id x = row_id r" using r(1) by blast
  from execute_loaded [OF loaded_from_row ex, of st kw] obtain res s1 where
    e: "execute st (from_row r) kw s = (res, s1)"
    and v: "res = Inl ValueError \<longleftrightarrow>
                 st = RescheduleStrategy \<and> kw_new_datetime kw = None
                 \<or> st = ReferralStrategy \<and> (\<forall>u. kw_new_vet kw \<noteq> Some (User_instance u))"
    and u: "res = Inl ValueError \<longrightarrow> s1 = s"
    and l: "\<forall>a1. res = Inr a1 \<longrightarrow> loaded (row_id r) a1
                \<and> (\<exists>x\<in>set (appointments s1). row_id x = row_id r)"
    by blast
  have g: "get_by_id (row_id r) s = Some (from_row r)"
    by (simp add: get_by_id_def r(2))
  note k = get_strategy_known [OF st]
  show ?thesis
  proof (cases res)
    case (Inl err)
    then have "process_appointment (row_id r) action kw s = (Inl err, s1)"
      by (simp add: process_appointment_def g st e)
    with Inl v u k show ?thesis by auto
  next
    case (Inr a1)
    with l have la: "loaded (row_id r) a1"
      and ex1: "\<exists>x\<in>set (appointments s1). row_id x = row_id r" by simp_all
    from save_loaded [OF la ex1] obtain s2 where s2: "save a1 s1 = (Inr a1, s2)" by blast
    obtain res3 s3 where n: "notify_observers (factory_observers s2) a1 action s2 = (res3, s3)"
      by (cases "notify_observers (factory_observers s2) a1 action s2")
    from notify_observers_frame [OF n] have nv: "res3 \<noteq> Inl ValueError" by simp
    have "fst (process_appointment (row_id r) action kw s) \<noteq> Inl ValueError"
      using nv
      by (cases res3)
        (simp_all add: process_appointment_def g st e Inr repository_save_def s2 n)
    moreover have "\<not> (action = ''reschedule'' \<and> kw_new_datetime kw = None
            \<or> action = ''refer'' \<and> (\<forall>u. kw_new_vet kw \<noteq> Some (User_instance u)))"
      using v k Inr by auto
    ultimately show ?thesis by simp
  qed
qed

lemma process_appointment_errors:
  "(fst (process_appointment i action kw s) = Inl ValueError \<longleftrightarrow>
      (\<forall>x\<in>set (appointments s). row_id x \<noteq> i)
      \<or> action \<notin> {''complete'', ''reschedule'', ''cancel'', ''no_show'', ''refer''}
      \<or> action = ''reschedule'' \<and> kw_new_datetime kw = None
      \<or> action = ''refer'' \<and> (\<forall>u. kw_new_vet kw \<noteq> Some (User_instance u)))
   \<and> (fst (process_appointment i action kw s) = Inl ValueError \<longrightarrow>
        snd (process_appointment i action kw s) = s)"
proof (cases rule: objects_get_cases [of s i])
  case 1
  then have "process_appointment i action kw s = (Inl ValueError, s)"
    by (simp add: process_appointment_def get_by_id_def)
  with 1 show ?thesis by simp
next
  case (2 r)
  have nx: "\<not> (\<forall>x\<in>set (appointments s). row_id x \<noteq> i)" using 2 by blast
  have g: "get_by_id i s = Some (from_row r)" using 2 by (simp add: get_by_id_def)
  show ?thesis
  proof (cases "get_strategy action")
    case (Inl e)
    then have e: "e = ValueError"
      by (auto simp: get_strategy_def split: option.splits)
    with Inl have u: "action \<notin> {''complete'', ''reschedule'', ''cancel'', ''no_show'', ''refer''}"
      by (simp add: get_strategy_unknown)
    have "process_appointment i action kw s = (Inl ValueError, s)"
      using Inl e by (simp add: process_appointment_def g)
    with u show ?thesis by simp
  next
    case (Inr st)
    then have kn: "\<not> action \<notin> {''complete'', ''reschedule'', ''cancel'', ''no_show'', ''refer''}"
      using get_strategy_unknown [of action] by simp
    from process_appointment_stored [of r s action st kw] 2 Inr
    have p: "(fst (process_appointment i action kw s) = Inl ValueError \<longleftrightarrow>
            action = ''reschedule'' \<and> kw_new_datetime kw = None
            \<or> action = ''refer'' \<and> (\<forall>u. kw_new_vet kw \<noteq> Some (User_instance u)))
         \<and> (fst (process_appointment i action kw s) = Inl ValueError \<longrightarrow>
              snd (process_appointment i action kw s) = s)"
      by simp
    from nx have b: "(\<forall>x\<in>set (appointments s). row_id x \<noteq> i) = False"
      by simp
    from kn have u:
      "(action \<notin> {''complete'', ''reschedule'', ''cancel'', ''no_show'', ''refer''}) = False"
      by simp
    show ?thesis
      unfolding b u using p by simp
  qed
qed

lemma save_from_row:
  assumes "distinct (map row_id (appointments s))" and "r \<in> set (appointments s)"
    and "pk a = Some (row_id r)" and "to_row (row_id r) a = Inr r'"
  shows "save a s =
    (Inr a, s\<lparr>appointments := map (\<lambda>x. if x = r then r' else x) (appointments s)\<rparr>)"
proof -
  have ex: "\<exists>x\<in>set (appointments s). row_id x = row_id r" using assms(2) by blast
  show ?thesis
    unfolding save_stored [OF assms(3,4) ex] map_at_key [OF assms(1,2), of "\<lambda>x. r'"]
    by simp
qed

lemma process_appointment_table:
  assumes d: "distinct (map row_id (appointments s))" and m: "r \<in> set (appointments s)"
    and gs: "get_strategy action = Inr st"
    and e: "execute st (from_row r) kw s = (res, s1)"
    and ap: "appointments s1 = map (\<lambda>x. if x = r then r' else x) (appointments s)"
    and k: "row_id r' = row_id r"
    and ok: "\<And>a. res = Inr a \<Longrightarrow> pk a = Some (row_id r) \<and> to_row (row_id r) a = Inr r'"
  shows "appointments (snd (process_appointment (row_id r) action kw s)) =
           map (\<lambda>x. if x = r then r' else x) (appointments s)"
proof (cases res)
  case (Inl err)
  then have "process_appointment (row_id r) action kw s = (Inl err, s1)"
    by (simp add: process_appointment_def get_by_id_stored [OF d m] gs e)
  then show ?thesis by (simp add: ap)
next
  case (Inr a)
  from ok [OF Inr] have pk: "pk a = Some (row_id r)" and tr: "to_row (row_id r) a = Inr r'"
    by simp_all
  have "r' \<in> set (appointments s1)"
    using m by (auto simp: ap)
  with k have ex: "\<exists>x\<in>set (appointments s1). row_id x = row_id r"
    by blast
  have same: "map (\<lambda>x. if row_id x = row_id r then r' else x) (appointments s1) = appointments s1"
    unfolding ap by (rule map_replace_twice [OF k d m])
  have sv: "repository_save a s1 = (Inr a, s1)"
    unfolding repository_save_def save_stored [OF pk tr ex] same by simp
  obtain res3 s3 where no: "notify_observers (factory_observers s1) a action s1 = (res3, s3)"
    by (cases "notify_observers (factory_observers s1) a action s1")
  have ap3: "appointments s3 = appointments s1"
    using notify_observers_frame [OF no] by simp
  have "process_appointment (row_id r) action kw s =
      (case res3 of Inl e \<Rightarrow> (Inl e, s3) | Inr _ \<Rightarrow> (Inr a, s3))"
    unfolding process_appointment_def get_by_id_stored [OF d m] gs
    by (simp add: e Inr sv no split: sum.splits)
  then show ?thesis
    by (cases res3) (simp_all add: ap3 ap)
qed

lemma complete_table:
  assumes d: "distinct (map row_id (appointments s))" and m: "r \<in> set (appointments s)"
  shows "appointments (snd (process_appointment (row_id r) ''complete'' kw s)) =
           map (\<lambda>x. if x = r then r\<lparr>row_status := ''completed''\<rparr> else x) (appointments s)"
proof -
  define a where "a = (from_row r)\<lparr>status := ''completed'',
      treatment_notes := Some (get_default (kw_treatment_notes kw) ''''),
      diagnosis := Some (get_default (kw_diagnosis kw) ''''),
      follow_up_date := kw_follow_up_date kw\<rparr>"
  define s1 where "s1 = s\<lparr>appointments :=
      map (\<lambda>x. if x = r then r\<lparr>row_status := ''completed''\<rparr> else x) (appointments s)\<rparr>"
  define res where "res = (case kw_follow_up_date kw of
      None \<Rightarrow> Inr a | Some follow_up \<Rightarrow> Inl AttributeError)"
  have pk: "pk a = Some (row_id r)"
    by (simp add: a_def from_row_def)
  have tr: "to_row (row_id r) a = Inr (r\<lparr>row_status := ''completed''\<rparr>)"
    by (simp add: to_row_def a_def from_row_def)
  have sv: "save a s = (Inr a, s1)"
    unfolding s1_def by (rule save_from_row [OF d m pk tr])
  have eq: "CompleteAppointmentStrategy_execute (from_row r) kw s =
      (case save a s of
         (Inl e, s1) \<Rightarrow> (Inl e, s1)
       | (Inr a1, s1) \<Rightarrow>
           (case kw_follow_up_date kw of
              None \<Rightarrow> (Inr a1, s1)
            | Some follow_up \<Rightarrow>
                (case schedule_follow_up a1 follow_up s1 of
                   (Inl e, s2) \<Rightarrow> (Inl e, s2)
                 | (Inr _, s2) \<Rightarrow> (Inr a1, s2))))"
    unfolding CompleteAppointmentStrategy_execute_def a_def Let_def ..
  have e: "execute CompleteAppointmentStrategy (from_row r) kw s = (res, s1)"
    unfolding execute.simps eq sv res_def
    by (cases "kw_follow_up_date kw")
      (simp_all add: schedule_follow_up_def AppointmentBuilder_service_method_def)
  have ap: "appointments s1 =
      map (\<lambda>x. if x = r then r\<lparr>row_status := ''completed''\<rparr> else x) (appointments s)"
    by (simp add: s1_def)
  have ok: "pk a' = Some (row_id r) \<and> to_row (row_id r) a' = Inr (r\<lparr>row_status := ''completed''\<rparr>)"
    if "res = Inr a'" for a'
    using that pk tr by (cases "kw_follow_up_date kw") (simp_all add: res_def)
  show ?thesis
    by (rule process_appointment_table [OF d m get_strategy_table(1) e ap _ ok]) simp_all
qed

lemma reschedule_table:
  assumes d: "distinct (map row_id (appointments s))" and m: "r \<in> set (appointments s)"
    and n: "kw_new_datetime kw = Some t"
  shows "appointments (snd (process_appointment (row_id r) ''reschedule'' kw s)) =
           map (\<lambda>x. if x = r then r\<lparr>row_date_time := t\<rparr> else x) (appointments s)"
proof -
  define a where "a = (from_row r)\<lparr>date_time := Some t\<rparr>"
  define s1 where "s1 = send_mail Rescheduled [email (owner (row_pet r))]
       (s\<lparr>appointments :=
            map (\<lambda>x. if x = r then r\<lparr>row_date_time := t\<rparr> else x) (appointments s)\<rparr>)"
  have e: "execute RescheduleStrategy (from_row r) kw s = (Inr a, s1)"
    unfolding execute.simps a_def s1_def by (rule reschedule_execute_stored [OF d m n])
  have ap: "appointments s1 =
      map (\<lambda>x. if x = r then r\<lparr>row_date_time := t\<rparr> else x) (appointments s)"
    by (simp add: s1_def send_mail_def)
  have ok: "pk a' = Some (row_id r) \<and> to_row (row_id r) a' = Inr (r\<lparr>row_date_time := t\<rparr>)"
    if "Inr a = (Inr a' :: error + appointment)" for a'
    using that by (auto simp: a_def from_row_def to_row_def)
  show ?thesis
    by (rule process_appointment_table [OF d m get_strategy_table(2) e ap _ ok]) simp_all
qed

lemma cancel_table:
  assumes d: "distinct (map row_id (appointments s))" and m: "r \<in> set (appointments s)"
  shows "appointments (snd (process_appointment (row_id r) ''cancel'' kw s)) =
           map (\<lambda>x. if x = r then r\<lparr>row_status := ''cancelled''\<rparr> else x) (appointments s)"
proof -
  define a where "a = (from_row r)\<lparr>status := ''cancelled'',
      cancellation_reason := Some (get_default (kw_reason kw) '''')\<rparr>"
  define s1 where "s1 = s\<lparr>appointments :=
      map (\<lambda>x. if x = r then r\<lparr>row_status := ''cancelled''\<rparr> else x) (appointments s)\<rparr>"
  define s2 where "s2 = (if get_default (kw_notify_client kw) True
      then send_mail Cancelled [email (owner (row_pet r))] s1 else s1)"
  have pk: "pk a = Some (row_id r)"
    by (simp add: a_def from_row_def)
  have tr: "to_row (row_id r) a = Inr (r\<lparr>row_status := ''cancelled''\<rparr>)"
    by (simp add: to_row_def a_def from_row_def)
  have sv: "save a s = (Inr a, s1)"
    unfolding s1_def by (rule save_from_row [OF d m pk tr])
  have eq: "CancellationStrategy_execute (from_row r) kw s =
      (case save a s of
         (Inl e, s1) \<Rightarrow> (Inl e, s1)
       | (Inr a1, s1) \<Rightarrow>
           if get_default (kw_notify_client kw) True then
             (case notify_cancellation a1 s1 of
                (Inl e, s2) \<Rightarrow> (Inl e, s2)
              | (Inr _, s2) \<Rightarrow> (Inr a1, s2))
           else (Inr a1, s1))"
    unfolding CancellationStrategy_execute_def a_def Let_def ..
  have nc: "notify_cancellation a s1 =
      (Inr (), send_mail Cancelled [email (owner (row_pet r))] s1)"
    by (simp add: notify_cancellation_def a_def from_row_def)
  have e: "execute CancellationStrategy (from_row r) kw s = (Inr a, s2)"
    unfolding execute.simps eq sv by (simp add: nc s2_def)
  have ap: "appointments s2 =
      map (\<lambda>x. if x = r then r\<lparr>row_status := ''cancelled''\<rparr> else x) (appointments s)"
    by (simp add: s2_def s1_def send_mail_def)
  have ok: "pk a' = Some (row_id r) \<and> to_row (row_id r) a' = Inr (r\<lparr>row_status := ''cancelled''\<rparr>)"
    if "Inr a = (Inr a' :: error + appointment)" for a'
    using that pk tr by simp
  show ?thesis
    by (rule process_appointment_table [OF d m get_strategy_table(3) e ap _ ok]) simp_all
qed

lemma no_show_table:
  assumes d: "distinct (map row_id (appointments s))" and m: "r \<in> set (appointments s)"
  shows "appointments (snd (process_appointment (row_id r) ''no_show'' kw s)) =
           map (\<lambda>x. if x = r
                     then r\<lparr>row_notes := ''No-show: '' @ get_default (kw_notes kw) '''',
                            row_status := ''no_show''\<rparr>
                     else x) (appointments s)"
proof -
  define r' where "r' = r\<lparr>row_notes := ''No-show: '' @ get_default (kw_notes kw) '''',
      row_status := ''no_show''\<rparr>"
  define a where "a = (from_row r)\<lparr>status := ''no_show'',
      appt_notes := ''No-show: '' @ get_default (kw_notes kw) ''''\<rparr>"
  define s1 where "s1 = s\<lparr>appointments :=
      map (\<lambda>x. if x = r then r' else x) (appointments s)\<rparr>"
  define s2 where "s2 = send_mail NoShow [email (owner (row_pet r))] s1"
  have pk: "pk a = Some (row_id r)"
    by (simp add: a_def from_row_def)
  have tr: "to_row (row_id r) a = Inr r'"
    by (simp add: to_row_def a_def from_row_def r'_def)
  have sv: "save a s = (Inr a, s1)"
    unfolding s1_def by (rule save_from_row [OF d m pk tr])
  have eq: "NoShowStrategy_execute (from_row r) kw s =
      (case save a s of
         (Inl e, s1) \<Rightarrow> (Inl e, s1)
       | (Inr a1, s1) \<Rightarrow>
           (case notify_no_show a1 s1 of
              (Inl e, s2) \<Rightarrow> (Inl e, s2)
            | (Inr _, s2) \<Rightarrow> (Inr a1, s2)))"
    unfolding NoShowStrategy_execute_def a_def Let_def ..
  have nc: "notify_no_show a s1 = (Inr (), s2)"
    by (simp add: notify_no_show_def a_def from_row_def s2_def)
  have e: "execute NoShowStrategy (from_row r) kw s = (Inr a, s2)"
    unfolding execute.simps eq sv by (simp add: nc)
  have ap: "appointments s2 = map (\<lambda>x. if x = r then r' else x) (appointments s)"
    by (simp add: s2_def s1_def send_mail_def)
  have ok: "pk a' = Some (row_id r) \<and> to_row (row_id r) a' = Inr r'"
    if "Inr a = (Inr a' :: error + appointment)" for a'
    using that pk tr by simp
  have "appointments (snd (process_appointment (row_id r) ''no_show'' kw s)) =
      map (\<lambda>x. if x = r then r' else x) (appointments s)"
    by (rule process_appointment_table [OF d m get_strategy_table(4) e ap _ ok])
      (simp_all add: r'_def)
  then show ?thesis by (simp add: r'_def)
qed

lemma refer_table:
  assumes d: "distinct (map row_id (appointments s))" and m: "r \<in> set (appointments s)"
    and n: "kw_new_vet kw = Some (User_instance u)"
  shows "appointments (snd (process_appointment (row_id r) ''refer'' kw s)) =
           map (\<lambda>x. if x = r
                     then r\<lparr>row_veterinarian := u,
                            row_notes := ''Referred by Dr. '' @ full_name (row_veterinarian r)
                                         @ '': '' @ get_default (kw_notes kw) ''''\<rparr>
                     else x) (appointments s)"
proof -
  define r' where "r' = r\<lparr>row_veterinarian := u,
      row_notes := ''Referred by Dr. '' @ full_name (row_veterinarian r)
                   @ '': '' @ get_default (kw_notes kw) ''''\<rparr>"
  define a where "a = (from_row r)\<lparr>veterinarian := Some u,
      appt_notes := ''Referred by Dr. '' @ full_name (row_veterinarian r) @ '': ''
                      @ get_default (kw_notes kw) ''''\<rparr>"
  define s1 where "s1 = s\<lparr>appointments :=
      map (\<lambda>x. if x = r then r' else x) (appointments s)\<rparr>"
  define s2 where "s2 = send_mail Referral [email u] s1"
  have pk: "pk a = Some (row_id r)"
    by (simp add: a_def from_row_def)
  have tr: "to_row (row_id r) a = Inr r'"
    by (simp add: to_row_def a_def from_row_def r'_def)
  have sv: "save a s = (Inr a, s1)"
    unfolding s1_def by (rule save_from_row [OF d m pk tr])
  have eq: "ReferralStrategy_execute (from_row r) kw s =
      (case save a s of
         (Inl e, s1) \<Rightarrow> (Inl e, s1)
       | (Inr a1, s1) \<Rightarrow>
           (case notify_referral a1 u s1 of
              (Inl e, s2) \<Rightarrow> (Inl e, s2)
            | (Inr _, s2) \<Rightarrow> (Inr a1, s2)))"
    unfolding ReferralStrategy_execute_def a_def Let_def n
    by (simp add: assign_veterinarian_def from_row_fields)
  have nc: "notify_referral a u s1 = (Inr (), s2)"
    by (simp add: notify_referral_def a_def from_row_def s2_def)
  have e: "execute ReferralStrategy (from_row r) kw s = (Inr a, s2)"
    unfolding execute.simps eq sv by (simp add: nc)
  have ap: "appointments s2 = map (\<lambda>x. if x = r then r' else x) (appointments s)"
    by (simp add: s2_def s1_def send_mail_def)
  have ok: "pk a' = Some (row_id r) \<and> to_row (row_id r) a' = Inr r'"
    if "Inr a = (Inr a' :: error + appointment)" for a'
    using that pk tr by simp
  have "appointments (snd (process_appointment (row_id r) ''refer'' kw s)) =
      map (\<lambda>x. if x = r then r' else x) (appointments s)"
    by (rule process_appointment_table [OF d m get_strategy_table(5) e ap _ ok])
      (simp_all add: r'_def)
  then show ?thesis by (simp add: r'_def)
qed

text \<open>
  C5, as the code has it. \<^verbatim>\<open>AppointmentService.process_appointment\<close> raises
  \<^verbatim>\<open>ValueError\<close> exactly when no appointment with the given id exists, or the action
  name is not one of \<^verbatim>\<open>complete\<close>, \<^verbatim>\<open>reschedule\<close>, \<^verbatim>\<open>cancel\<close>, \<^verbatim>\<open>no_show\<close>,
  \<^verbatim>\<open>refer\<close>, or the action is \<^verbatim>\<open>reschedule\<close> and no \<^verbatim>\<open>new_datetime\<close> is passed, or
  the action is \<^verbatim>\<open>refer\<close> and \<^verbatim>\<open>new_vet\<close> is not passed or is not a user (the
  \<^verbatim>\<open>Veterinarian\<close> profile that the view passes); in each of these cases the store is
  left as it was. The five action names select the strategies
  \<^verbatim>\<open>CompleteAppointmentStrategy\<close>, \<^verbatim>\<open>RescheduleStrategy\<close>, \<^verbatim>\<open>CancellationStrategy\<close>,
  \<^verbatim>\<open>NoShowStrategy\<close> and \<^verbatim>\<open>ReferralStrategy\<close>, and the call runs the strategy that
  its action name selects: on a stored appointment with a unique primary key,
  \<^verbatim>\<open>complete\<close> leaves the appointment table with the status of that row set to
  \<^verbatim>\<open>completed\<close>, \<^verbatim>\<open>reschedule\<close> with its date and time set to \<^verbatim>\<open>new_datetime\<close>,
  \<^verbatim>\<open>cancel\<close> with its status set to \<^verbatim>\<open>cancelled\<close>, \<^verbatim>\<open>no_show\<close> with its status set to
  \<^verbatim>\<open>no_show\<close> and its notes to the no-show note, and \<^verbatim>\<open>refer\<close> with a user as
  \<^verbatim>\<open>new_vet\<close> with its veterinarian set to that user and its notes to the referral
  note; every other row is unchanged.
\<close>

theorem process_appointment_value_error_iff:
  "(fst (process_appointment i action kw s) = Inl ValueError \<longleftrightarrow>
      (\<forall>x\<in>set (appointments s). row_id x \<noteq> i)
      \<or> action \<notin> {''complete'', ''reschedule'', ''cancel'', ''no_show'', ''refer''}
      \<or> action = ''reschedule'' \<and> kw_new_datetime kw = None
      \<or> action = ''refer'' \<and> (\<forall>u. kw_new_vet kw \<noteq> Some (User_instance u)))
   \<and> (fst (process_appointment i action kw s) = Inl ValueError \<longrightarrow>
        snd (process_appointment i action kw s) = s)
   \<and> get_strategy ''complete'' = Inr CompleteAppointmentStrategy
   \<and> get_strategy ''reschedule'' = Inr RescheduleStrategy
   \<and> get_strategy ''cancel'' = Inr CancellationStrategy
   \<and> get_strategy ''no_show'' = Inr NoShowStrategy
   \<and> get_strategy ''refer'' = Inr ReferralStrategy
   \<and> (distinct (map row_id (appointments s)) \<and> r \<in> set (appointments s) \<longrightarrow>
        appointments (snd (process_appointment (row_id r) ''complete'' kw s)) =
          map (\<lambda>x. if x = r then r\<lparr>row_status := ''completed''\<rparr> else x) (appointments s)
        \<and> (kw_new_datetime kw = Some t \<longrightarrow>
             appointments (snd (process_appointment (row_id r) ''reschedule'' kw s)) =
               map (\<lambda>x. if x = r then r\<lparr>row_date_time := t\<rparr> else x) (appointments s))
        \<and> appointments (snd (process_appointment (row_id r) ''cancel'' kw s)) =
            map (\<lambda>x. if x = r then r\<lparr>row_status := ''cancelled''\<rparr> else x) (appointments s)
        \<and> appointments (snd (process_appointment (row_id r) ''no_show'' kw s)) =
            map (\<lambda>x. if x = r
                      then r\<lparr>row_notes := ''No-show: '' @ get_default (kw_notes kw) '''',
                             row_status := ''no_show''\<rparr>
                      else x) (appointments s)
        \<and> (kw_new_vet kw = Some (User_instance u) \<longrightarrow>
             appointments (snd (process_appointment (row_id r) ''refer'' kw s)) =
               map (\<lambda>x. if x = r
                         then r\<lparr>row_veterinarian := u,
                                row_notes := ''Referred by Dr. ''
                                             @ full_name (row_veterinarian r)
                                             @ '': '' @ get_default (kw_notes kw) ''''\<rparr>
                         else x) (appointments s)))"
proof -
  have p1: "fst (process_appointment i action kw s) = Inl ValueError \<longleftrightarrow>
      (\<forall>x\<in>set (appointments s). row_id x \<noteq> i)
      \<or> action \<notin> {''complete'', ''reschedule'', ''cancel'', ''no_show'', ''refer''}
      \<or> action = ''reschedule'' \<and> kw_new_datetime kw = None
      \<or> action = ''refer'' \<and> (\<forall>u. kw_new_vet kw \<noteq> Some (User_instance u))"
    using process_appointment_errors [of i action kw s] by (rule conjunct1)
  have p2: "fst (process_appointment i action kw s) = Inl ValueError \<longrightarrow>
        snd (process_appointment i action kw s) = s"
    using process_appointment_errors [of i action kw s] by (rule conjunct2)
  have p3: "distinct (map row_id (appointments s)) \<and> r \<in> set (appointments s) \<longrightarrow>
        appointments (snd (process_appointment (row_id r) ''complete'' kw s)) =
          map (\<lambda>x. if x = r then r\<lparr>row_status := ''completed''\<rparr> else x) (appointments s)
        \<and> (kw_new_datetime kw = Some t \<longrightarrow>
             appointments (snd (process_appointment (row_id r) ''reschedule'' kw s)) =
               map (\<lambda>x. if x = r then r\<lparr>row_date_time := t\<rparr> else x) (appointments s))
        \<and> appointments (snd (process_appointment (row_id r) ''cancel'' kw s)) =
            map (\<lambda>x. if x = r then r\<lparr>row_status := ''cancelled''\<rparr> else x) (appointments s)
        \<and> appointments (snd (process_appointment (row_id r) ''no_show'' kw s)) =
            map (\<lambda>x. if x = r
                      then r\<lparr>row_notes := ''No-show: '' @ get_default (kw_notes kw) '''',
                             row_status := ''no_show''\<rparr>
                      else x) (appointments s)
        \<and> (kw_new_vet kw = Some (User_instance u) \<longrightarrow>
             appointments (snd (process_appointment (row_id r) ''refer'' kw s)) =
               map (\<lambda>x. if x = r
                         then r\<lparr>row_veterinarian := u,
                                row_notes := ''Referred by Dr. ''
                                             @ full_name (row_veterinarian r)
                                             @ '': '' @ get_default (kw_notes kw) ''''\<rparr>
                         else x) (appointments s))"
  proof
    assume "distinct (map row_id (appointments s)) \<and> r \<in> set (appointments s)"
    then have d: "distinct (map row_id (appointments s))" and m: "r \<in> set (appointments s)"
      by simp_all
    have e2: "kw_new_datetime kw = Some t \<longrightarrow>
             appointments (snd (process_appointment (row_id r) ''reschedule'' kw s)) =
               map (\<lambda>x. if x = r then r\<lparr>row_date_time := t\<rparr> else x) (appointments s)"
      by (rule impI) (rule reschedule_table [OF d m])
    have e5: "kw_new_vet kw = Some (User_instance u) \<longrightarrow>
             appointments (snd (process_appointment (row_id r) ''refer'' kw s)) =
               map (\<lambda>x. if x = r
                         then r\<lparr>row_veterinarian := u,
                                row_notes := ''Referred by Dr. ''
                                             @ full_name (row_veterinarian r)
                                             @ '': '' @ get_default (kw_notes kw) ''''\<rparr>
                         else x) (appointments s)"
      by (rule impI) (rule refer_table [OF d m])
    show "appointments (snd (process_appointment (row_id r) ''complete'' kw s)) =
          map (\<lambda>x. if x = r then r\<lparr>row_status := ''completed''\<rparr> else x) (appointments s)
        \<and> (kw_new_datetime kw = Some t \<longrightarrow>
             appointments (snd (process_appointment (row_id r) ''reschedule'' kw s)) =
               map (\<lambda>x. if x = r then r\<lparr>row_date_time := t\<rparr> else x) (appointments s))
        \<and> appointments (snd (process_appointment (row_id r) ''cancel'' kw s)) =
            map (\<lambda>x. if x = r then r\<lparr>row_status := ''cancelled''\<rparr> else x) (appointments s)
        \<and> appointments (snd (process_appointment (row_id r) ''no_show'' kw s)) =
            map (\<lambda>x. if x = r
                      then r\<lparr>row_notes := ''No-show: '' @ get_default (kw_notes kw) '''',
                             row_status := ''no_show''\<rparr>
                      else x) (appointments s)
        \<and> (kw_new_vet kw = Some (User_instance u) \<longrightarrow>
             appointments (snd (process_appointment (row_id r) ''refer'' kw s)) =
               map (\<lambda>x. if x = r
                         then r\<lparr>row_veterinarian := u,
                                row_notes := ''Referred by Dr. ''
                                             @ full_name (row_veterinarian r)
                                             @ '': '' @ get_default (kw_notes kw) ''''\<rparr>
                         else x) (appointments s))"
      by (rule conjI [OF complete_table [OF d m]
            conjI [OF e2 conjI [OF cancel_table [OF d m] conjI [OF no_show_table [OF d m] e5]]]])
  qed
  show ?thesis
    by (rule conjI [OF p1 conjI [OF p2
          conjI [OF get_strategy_table(1) conjI [OF get_strategy_table(2)
          conjI [OF get_strategy_table(3) conjI [OF get_strategy_table(4)
          conjI [OF get_strategy_table(5) p3]]]]]]])
qed

theorem process_appointment_value_error_iff_witness:
  "7 \<notin> row_id ` set (appointments clinic_store)
   \<and> fst (process_appointment 7 ''cancel'' no_kwargs clinic_store) = Inl ValueError
   \<and> snd (process_appointment 7 ''cancel'' no_kwargs clinic_store) = clinic_store
   \<and> distinct (map row_id (appointments clinic_store))
   \<and> row_at 1 (combine_hour 738000 10) ''confirmed'' \<in> set (appointments clinic_store)
   \<and> appointments (snd (process_appointment 1 ''cancel''
        (no_kwargs\<lparr>kw_new_datetime := Some (combine_hour 738001 9),
                    kw_new_vet := Some (User_instance vet_cy)\<rparr>) clinic_store)) =
       [row_at 1 (combine_hour 738000 10) ''cancelled'',
        row_at 2 (combine_hour 738000 11) ''pending'']
   \<and> appointments (snd (process_appointment 1 ''reschedule''
        (no_kwargs\<lparr>kw_new_datetime := Some (combine_hour 738001 9),
                    kw_new_vet := Some (User_instance vet_cy)\<rparr>) clinic_store)) =
       [row_at 1 (combine_hour 738001 9) ''confirmed'',
        row_at 2 (combine_hour 738000 11) ''pending'']
   \<and> appointments (snd (process_appointment 1 ''no_show''
        (no_kwargs\<lparr>kw_new_datetime := Some (combine_hour 738001 9),
                    kw_new_vet := Some (User_instance vet_cy)\<rparr>) clinic_store)) =
       [(row_at 1 (combine_hour 738000 10) ''no_show'')\<lparr>row_notes := ''No-show: ''\<rparr>,
        row_at 2 (combine_hour 738000 11) ''pending'']
   \<and> appointments (snd (process_appointment 1 ''refer''
        (no_kwargs\<lparr>kw_new_datetime := Some (combine_hour 738001 9),
                    kw_new_vet := Some (User_instance vet_cy)\<rparr>) clinic_store)) =
       [(row_at 1 (combine_hour 738000 10) ''confirmed'')
          \<lparr>row_veterinarian := vet_cy, row_notes := ''Referred by Dr. Ana Vet: ''\<rparr>,
        row_at 2 (combine_hour 738000 11) ''pending'']"
proof -
  define kw where "kw = no_kwargs\<lparr>kw_new_datetime := Some (combine_hour 738001 9),
      kw_new_vet := Some (User_instance vet_cy)\<rparr>"
  define r where "r = row_at 1 (combine_hour 738000 10) ''confirmed''"
  have a: "\<forall>x\<in>set (appointments clinic_store). row_id x \<noteq> 7"
    by (simp add: clinic_store_def row_at_def)
  then have a7: "7 \<notin> row_id ` set (appointments clinic_store)"
    by (simp add: clinic_store_def row_at_def)
  note absent = process_appointment_value_error_iff [of 7 "''cancel''" no_kwargs clinic_store]
  have v: "fst (process_appointment 7 ''cancel'' no_kwargs clinic_store) = Inl ValueError"
    by (rule absent [THEN conjunct1, THEN iffD2, OF disjI1, OF a])
  have u: "snd (process_appointment 7 ''cancel'' no_kwargs clinic_store) = clinic_store"
    by (rule absent [THEN conjunct2, THEN conjunct1, THEN mp, OF v])
  have d: "distinct (map row_id (appointments clinic_store))"
    by (simp add: clinic_store_def row_at_def)
  have m: "r \<in> set (appointments clinic_store)"
    by (simp add: clinic_store_def r_def)
  have m': "row_at 1 (combine_hour 738000 10) ''confirmed'' \<in> set (appointments clinic_store)"
    using m by (simp add: r_def)
  have n: "kw_new_vet kw = Some (User_instance vet_cy)"
    by (simp add: kw_def)
  have nd: "kw_new_datetime kw = Some (combine_hour 738001 9)"
    by (simp add: kw_def)
  have k: "row_id r = 1"
    by (simp add: r_def row_at_def)
  have t: "combine_hour 738000 11 \<noteq> combine_hour 738000 10"
    by (simp add: combine_hour_def HOUR_def)
  have l: "map (\<lambda>x. if x = r then r' else x) (appointments clinic_store) =
       [r', row_at 2 (combine_hour 738000 11) ''pending'']" for r'
    using t by (simp add: clinic_store_def r_def row_at_def)
  have g: "get_default (kw_notes kw) '''' = ''''"
    by (simp add: kw_def no_kwargs_def get_default_def)
  have f: "full_name (row_veterinarian r) = ''Ana Vet''"
    by (simp add: r_def row_at_def vet_ana_def)
  note present = process_appointment_value_error_iff
    [of 1 "''cancel''" kw clinic_store r "combine_hour 738001 9" vet_cy,
     THEN conjunct2, THEN conjunct2, THEN conjunct2, THEN conjunct2, THEN conjunct2,
     THEN conjunct2, THEN conjunct2, THEN mp, OF conjI [OF d m]]
  have c: "appointments (snd (process_appointment 1 ''cancel'' kw clinic_store)) =
       [row_at 1 (combine_hour 738000 10) ''cancelled'',
        row_at 2 (combine_hour 738000 11) ''pending'']"
    using present [THEN conjunct2, THEN conjunct2, THEN conjunct1]
    unfolding k l by (simp add: r_def row_at_def)
  have rs: "appointments (snd (process_appointment 1 ''reschedule'' kw clinic_store)) =
       [row_at 1 (combine_hour 738001 9) ''confirmed'',
        row_at 2 (combine_hour 738000 11) ''pending'']"
    using present [THEN conjunct2, THEN conjunct1, THEN mp, OF nd]
    unfolding k l by (simp add: r_def row_at_def)
  have ns: "appointments (snd (process_appointment 1 ''no_show'' kw clinic_store)) =
       [(row_at 1 (combine_hour 738000 10) ''no_show'')\<lparr>row_notes := ''No-show: ''\<rparr>,
        row_at 2 (combine_hour 738000 11) ''pending'']"
    using present [THEN conjunct2, THEN conjunct2, THEN conjunct2, THEN conjunct1]
    unfolding k l g by (simp add: r_def row_at_def)
  have rf: "appointments (snd (process_appointment 1 ''refer'' kw clinic_store)) =
       [(row_at 1 (combine_hour 738000 10) ''confirmed'')
          \<lparr>row_veterinarian := vet_cy, row_notes := ''Referred by Dr. Ana Vet: ''\<rparr>,
        row_at 2 (combine_hour 738000 11) ''pending'']"
    using present [THEN conjunct2, THEN conjunct2, THEN conjunct2, THEN conjunct2, THEN mp, OF n]
    unfolding k l g f by (simp add: r_def row_at_def)
  show ?thesis
    unfolding kw_def [symmetric]
    by (rule conjI [OF a7 conjI [OF v conjI [OF u conjI [OF d conjI [OF m'
          conjI [OF c conjI [OF rs conjI [OF ns rf]]]]]]]])
qed

text \<open>
  The claim as stated fails: for a stored appointment and the action name
  \<^verbatim>\<open>reschedule\<close>, a call that passes no \<^verbatim>\<open>new_datetime\<close> raises \<^verbatim>\<open>ValueError\<close>, and
  so does the action \<^verbatim>\<open>refer\<close> with the profile of a veterinarian as \<^verbatim>\<open>new_vet\<close>.
\<close>

theorem process_appointment_value_error_counterexample:
  "fst (process_appointment 1 ''reschedule'' no_kwargs clinic_store) = Inl ValueError
   \<and> get_by_id 1 clinic_store
       = Some (from_row (row_at 1 (combine_hour 738000 10) ''confirmed''))
   \<and> get_strategy ''reschedule'' = Inr RescheduleStrategy
   \<and> process_appointment 1 ''refer''
        (no_kwargs\<lparr>kw_new_vet := Some (Veterinarian_instance profile_cy)\<rparr>) clinic_store
       = (Inl ValueError, clinic_store)
   \<and> get_strategy ''refer'' = Inr ReferralStrategy"
  by (simp add: process_appointment_def get_by_id_def objects_get_def clinic_store_def
      row_at_def get_strategy_def strategies_def RescheduleStrategy_execute_def no_kwargs_def
      ReferralStrategy_execute_def from_row_def assign_veterinarian_def)

section \<open>Completing an appointment with a follow-up\<close>

text \<open>
  C3. What the code does where the claim expects a follow-up appointment: for every
  stored appointment, \<^verbatim>\<open>process_appointment(id, 'complete', ...)\<close> with a
  \<^verbatim>\<open>follow_up_date\<close> sets the status of the appointment to \<^verbatim>\<open>completed\<close> and writes
  it, and then raises \<^verbatim>\<open>AttributeError\<close> in \<^verbatim>\<open>_schedule_follow_up\<close>, which calls the
  method \<^verbatim>\<open>set_service_type\<close> on a builder that only has \<^verbatim>\<open>set_service\<close>. No
  follow-up appointment is created or saved: the appointment table keeps its rows, and
  the observers are not notified. Primary keys are unique.
\<close>

theorem complete_with_follow_up_raises:
  assumes "distinct (map row_id (appointments s))" and "r \<in> set (appointments s)"
    and "kw_follow_up_date kw = Some follow_up"
  shows "process_appointment (row_id r) ''complete'' kw s =
           (Inl AttributeError,
            s\<lparr>appointments :=
                map (\<lambda>x. if x = r then r\<lparr>row_status := ''completed''\<rparr> else x)
                  (appointments s)\<rparr>)"
proof -
  define a where "a = (from_row r)\<lparr>status := ''completed'',
      treatment_notes := Some (get_default (kw_treatment_notes kw) ''''),
      diagnosis := Some (get_default (kw_diagnosis kw) ''''),
      follow_up_date := kw_follow_up_date kw\<rparr>"
  define s1 where "s1 = s\<lparr>appointments :=
      map (\<lambda>x. if x = r then r\<lparr>row_status := ''completed''\<rparr> else x) (appointments s)\<rparr>"
  have ex: "\<exists>x\<in>set (appointments s). row_id x = row_id r" using assms(2) by blast
  have pk: "pk a = Some (row_id r)"
    by (simp add: a_def from_row_def)
  have tr: "to_row (row_id r) a = Inr (r\<lparr>row_status := ''completed''\<rparr>)"
    by (simp add: to_row_def a_def from_row_def)
  have sv: "save a s = (Inr a, s1)"
    unfolding save_stored [OF pk tr ex] s1_def
      map_at_key [OF assms(1,2), of "\<lambda>x. r\<lparr>row_status := ''completed''\<rparr>"]
    by simp
  have eq: "CompleteAppointmentStrategy_execute (from_row r) kw s =
      (case save a s of
         (Inl e, s1) \<Rightarrow> (Inl e, s1)
       | (Inr a1, s1) \<Rightarrow>
           (case kw_follow_up_date kw of
              None \<Rightarrow> (Inr a1, s1)
            | Some follow_up \<Rightarrow>
                (case schedule_follow_up a1 follow_up s1 of
                   (Inl e, s2) \<Rightarrow> (Inl e, s2)
                 | (Inr _, s2) \<Rightarrow> (Inr a1, s2))))"
    unfolding CompleteAppointmentStrategy_execute_def a_def Let_def ..
  have fu: "schedule_follow_up a follow_up s1 = (Inl AttributeError, s1)"
    by (simp add: schedule_follow_up_def AppointmentBuilder_service_method_def)
  have ex1: "CompleteAppointmentStrategy_execute (from_row r) kw s = (Inl AttributeError, s1)"
    unfolding eq sv by (simp add: assms(3) fu)
  have gs: "get_strategy ''complete'' = Inr CompleteAppointmentStrategy"
    by (simp add: get_strategy_def strategies_def)
  show ?thesis
    unfolding process_appointment_def get_by_id_stored [OF assms(1,2)] gs
    by (simp add: ex1 s1_def)
qed

theorem complete_with_follow_up_raises_witness:
  "distinct (map row_id (appointments clinic_store))
   \<and> row_at 1 (combine_hour 738000 10) ''confirmed'' \<in> set (appointments clinic_store)
   \<and> kw_follow_up_date
        (no_kwargs\<lparr>kw_treatment_notes := Some ''rest'', kw_diagnosis := Some ''healthy'',
                    kw_follow_up_date := Some (combine_hour 738007 10)\<rparr>)
       = Some (combine_hour 738007 10)
   \<and> process_appointment 1 ''complete''
        (no_kwargs\<lparr>kw_treatment_notes := Some ''rest'', kw_diagnosis := Some ''healthy'',
                    kw_follow_up_date := Some (combine_hour 738007 10)\<rparr>) clinic_store =
       (Inl AttributeError,
        clinic_store\<lparr>appointments :=
          [row_at 1 (combine_hour 738000 10) ''completed'',
           row_at 2 (combine_hour 738000 11) ''pending'']\<rparr>)"
proof -
  have d: "distinct (map row_id (appointments clinic_store))"
    by (simp add: clinic_store_def row_at_def)
  have m: "row_at 1 (combine_hour 738000 10) ''confirmed'' \<in> set (appointments clinic_store)"
    by (simp add: clinic_store_def)
  have n: "kw_follow_up_date
        (no_kwargs\<lparr>kw_treatment_notes := Some ''rest'', kw_diagnosis := Some ''healthy'',
                    kw_follow_up_date := Some (combine_hour 738007 10)\<rparr>)
       = Some (combine_hour 738007 10)"
    by simp
  have k: "row_id (row_at 1 (combine_hour 738000 10) ''confirmed'') = 1"
    by (simp add: row_at_def)
  have t: "combine_hour 738000 11 \<noteq> combine_hour 738000 10"
    by (simp add: combine_hour_def HOUR_def)
  have l: "map (\<lambda>x. if x = row_at 1 (combine_hour 738000 10) ''confirmed''
                    then (row_at 1 (combine_hour 738000 10) ''confirmed'')
                           \<lparr>row_status := ''completed''\<rparr>
                    else x) (appointments clinic_store) =
       [row_at 1 (combine_hour 738000 10) ''completed'',
        row_at 2 (combine_hour 738000 11) ''pending'']"
    using t by (simp add: clinic_store_def row_at_def)
  show ?thesis
    using complete_with_follow_up_raises [OF d m n] d m n
    unfolding k l by simp
qed

section \<open>Notification of the observers\<close>







section \<open>Booking an appointment\<close>















end
